theory Spec2Isabelle
  imports Complex_Main "HOL-Library.AList"
begin

section \<open>Data model of the race server (src/server/index.js)\<close>

text \<open>
  JavaScript numbers are modelled as exact reals (kinematics) and integers (counters,
  health, ammunition); \<open>Math.sqrt\<close>, \<open>Math.cos\<close>, \<open>Math.sin\<close> are the real functions.
  Objects are records. Where two object types of the source share a field name, the
  field carries a prefix naming its record (\<open>bottle_position\<close>, \<open>gs_players\<close>, ...).
  Values drawn from the environment (\<open>uuidv4()\<close>, \<open>Math.random()\<close>, \<open>Date.now()\<close>, the
  socket identity) are inputs of the operation that draws them.
\<close>

record vec =
  x :: real
  y :: real

record keys =
  up :: bool
  down :: bool
  left :: bool
  right :: bool
  space :: bool

datatype powerUpType = Speed | Shield | Health | Bottles

record powerUp =
  pu_id :: string
  pu_type :: powerUpType
  pu_position :: vec
  collected :: bool

text \<open>The record pushed by the shield case: \<open>{...powerUp, duration: 8000}\<close>.\<close>

record activeEffect = powerUp +
  duration :: nat

text \<open>
  \<open>car_ref\<close> is not a field of the source: it is the identity of the JavaScript object,
  which the \<open>setTimeout\<close> closure of the speed power-up holds on to.
\<close>

record car =
  car_id :: string
  playerId :: string
  playerName :: string
  position :: vec
  velocity :: vec
  rotation :: real
  health :: int
  maxHealth :: int
  speed :: real
  maxSpeed :: real
  acceleration :: real
  bottles :: int
  lap :: int
  lapTime :: int
  totalTime :: int
  isEliminated :: bool
  powerUps :: "activeEffect list"
  color :: string
  car_ref :: nat

record bottle =
  bottle_id :: string
  bottle_position :: vec
  bottle_velocity :: vec
  bottle_playerId :: string
  damage :: int
  active :: bool

record gameState =
  gs_id :: string
  gs_players :: "car list"
  gs_bottles :: "bottle list"
  gs_powerUps :: "powerUp list"
  gameStarted :: bool
  gameEnded :: bool
  winner :: "string option"
  raceTime :: int
  maxLaps :: int

record member =
  member_id :: string
  member_name :: string

record room =
  room_id :: string
  room_name :: string
  room_players :: "member list"
  maxPlayers :: nat
  host :: string
  room_gameState :: gameState

section \<open>Physics constants\<close>

definition FRICTION :: real where "FRICTION = 0.95"
definition TURN_SPEED :: real where "TURN_SPEED = 0.08"
definition ACCELERATION :: real where "ACCELERATION = 0.5"
definition BRAKE_FORCE :: real where "BRAKE_FORCE = 0.8"
definition MAX_SPEED :: real where "MAX_SPEED = 8"
definition BOTTLE_SPEED :: real where "BOTTLE_SPEED = 12"
definition TRACK_WIDTH :: real where "TRACK_WIDTH = 800"
definition TRACK_HEIGHT :: real where "TRACK_HEIGHT = 600"

section \<open>Vehicle physics\<close>

text \<open>\<open>keepInBounds\<close>: four independent tests in sequence, each on the car as the previous one left it.\<close>

definition keepInBounds :: "car \<Rightarrow> car" where
  "keepInBounds car =
    (let margin = 20;
         c1 = (if x (position car) < margin
               then car\<lparr>position := (position car)\<lparr>x := margin\<rparr>,
                        velocity := (velocity car)\<lparr>x := \<bar>x (velocity car)\<bar> * 0.5\<rparr>\<rparr>
               else car);
         c2 = (if x (position c1) > TRACK_WIDTH - margin
               then c1\<lparr>position := (position c1)\<lparr>x := TRACK_WIDTH - margin\<rparr>,
                       velocity := (velocity c1)\<lparr>x := - \<bar>x (velocity c1)\<bar> * 0.5\<rparr>\<rparr>
               else c1);
         c3 = (if y (position c2) < margin
               then c2\<lparr>position := (position c2)\<lparr>y := margin\<rparr>,
                       velocity := (velocity c2)\<lparr>y := \<bar>y (velocity c2)\<bar> * 0.5\<rparr>\<rparr>
               else c2);
         c4 = (if y (position c3) > TRACK_HEIGHT - margin
               then c3\<lparr>position := (position c3)\<lparr>y := TRACK_HEIGHT - margin\<rparr>,
                       velocity := (velocity c3)\<lparr>y := - \<bar>y (velocity c3)\<bar> * 0.5\<rparr>\<rparr>
               else c3)
     in c4)"

text \<open>
  \<open>updateCarPhysics\<close>, statement by statement. \<open>v1\<close>: after the forward impulse; \<open>v2\<close>:
  after braking; \<open>speed'\<close>: the source's local \<open>speed\<close>; \<open>v3\<close>: after friction; \<open>v4\<close>:
  after the speed limit. The division by \<open>currentSpeed\<close> happens only when
  \<open>currentSpeed > maxSpeed\<close>.
\<close>

definition updateCarPhysics :: "car \<Rightarrow> keys \<Rightarrow> car" where
  "updateCarPhysics car input =
    (let v0 = velocity car;
         v1 = (if up input
               then \<lparr>x = x v0 + cos (rotation car) * ACCELERATION,
                     y = y v0 + sin (rotation car) * ACCELERATION\<rparr>
               else v0);
         v2 = (if down input then \<lparr>x = x v1 * BRAKE_FORCE, y = y v1 * BRAKE_FORCE\<rparr> else v1);
         speed' = sqrt ((x v2)\<^sup>2 + (y v2)\<^sup>2);
         r1 = (if speed' > 0.5 \<and> left input
               then rotation car - TURN_SPEED * (speed' / MAX_SPEED) else rotation car);
         r2 = (if speed' > 0.5 \<and> right input
               then r1 + TURN_SPEED * (speed' / MAX_SPEED) else r1);
         v3 = \<lparr>x = x v2 * FRICTION, y = y v2 * FRICTION\<rparr>;
         currentSpeed = sqrt ((x v3)\<^sup>2 + (y v3)\<^sup>2);
         v4 = (if currentSpeed > maxSpeed car
               then \<lparr>x = (x v3 / currentSpeed) * maxSpeed car,
                     y = (y v3 / currentSpeed) * maxSpeed car\<rparr>
               else v3);
         p = \<lparr>x = x (position car) + x v4, y = y (position car) + y v4\<rparr>
     in keepInBounds (car\<lparr>velocity := v4, rotation := r2, position := p\<rparr>))"


section \<open>Projectiles and combat\<close>

text \<open>\<open>createBottle\<close>; the identity string built from the clock and a random number is the input \<open>bid\<close>.\<close>

definition createBottle :: "car \<Rightarrow> string \<Rightarrow> bottle" where
  "createBottle car bid =
    (let bottleSpeed = BOTTLE_SPEED; angle = rotation car
     in \<lparr>bottle_id = bid,
         bottle_position = \<lparr>x = x (position car) + cos angle * 40,
                             y = y (position car) + sin angle * 40\<rparr>,
         bottle_velocity = \<lparr>x = cos angle * bottleSpeed + x (velocity car),
                             y = sin angle * bottleSpeed + y (velocity car)\<rparr>,
         bottle_playerId = playerId car,
         damage = 20,
         active = True\<rparr>)"

definition updateBottlePhysics :: "bottle \<Rightarrow> bottle" where
  "updateBottlePhysics b =
    (let p = \<lparr>x = x (bottle_position b) + x (bottle_velocity b),
              y = y (bottle_position b) + y (bottle_velocity b)\<rparr>;
         b1 = b\<lparr>bottle_position := p\<rparr>
     in if x p < 0 \<or> x p > TRACK_WIDTH \<or> y p < 0 \<or> y p > TRACK_HEIGHT
        then b1\<lparr>active := False\<rparr> else b1)"

definition checkCollision :: "vec \<Rightarrow> vec \<Rightarrow> real \<Rightarrow> real \<Rightarrow> bool" where
  "checkCollision pos1 pos2 radius1 radius2 =
    (let dx = x pos1 - x pos2;
         dy = y pos1 - y pos2;
         distance = sqrt (dx * dx + dy * dy)
     in distance < radius1 + radius2)"

text \<open>\<open>Math.atan2(b, a)\<close> on reals: the angle of the point \<open>(a, b)\<close> in \<open>(-\<pi>, \<pi>]\<close>, and 0 at the origin.\<close>

definition atan2 :: "real \<Rightarrow> real \<Rightarrow> real" where
  "atan2 b a =
    (if a > 0 then arctan (b / a)
     else if a < 0 \<and> b \<ge> 0 then arctan (b / a) + pi
     else if a < 0 then arctan (b / a) - pi
     else if b > 0 then pi / 2
     else if b < 0 then - pi / 2
     else 0)"

text \<open>
  \<open>handleBottleCarCollision\<close> mutates both arguments and returns a flag: the model returns
  the flag with the bottle and the car as they are afterwards.
\<close>

definition handleBottleCarCollision :: "bottle \<Rightarrow> car \<Rightarrow> bool \<times> bottle \<times> car" where
  "handleBottleCarCollision b car =
    (if bottle_playerId b = playerId car \<or> \<not> active b then (False, b, car)
     else if checkCollision (bottle_position b) (position car) 5 20
     then (let knockbackForce = 3;
               angle = atan2 (y (position car) - y (bottle_position b))
                             (x (position car) - x (bottle_position b))
           in (True,
               b\<lparr>active := False\<rparr>,
               car\<lparr>health := health car - damage b,
                   velocity := \<lparr>x = x (velocity car) + cos angle * knockbackForce,
                                 y = y (velocity car) + sin angle * knockbackForce\<rparr>\<rparr>))
     else (False, b, car))"

text \<open>
  The loop over the cars inside the bottle filter of \<open>updateGame\<close>:
  \<^verbatim>\<open>for (const car of gameState.players) {
    if (!car.isEliminated && handleBottleCarCollision(bottle, car)) {
      if (car.health <= 0) car.isEliminated = true;
      break; } }\<close>
\<close>

fun hitLoop :: "bottle \<Rightarrow> car list \<Rightarrow> bottle \<times> car list" where
  "hitLoop b [] = (b, [])"
| "hitLoop b (c # cs) =
    (if \<not> isEliminated c
     then (case handleBottleCarCollision b c of
             (True, b', c') \<Rightarrow>
               (b', (if health c' \<le> 0 then c'\<lparr>isEliminated := True\<rparr> else c') # cs)
           | (False, b', c') \<Rightarrow>
               (case hitLoop b' cs of (b'', cs') \<Rightarrow> (b'', c' # cs')))
     else (case hitLoop b cs of (b'', cs') \<Rightarrow> (b'', c # cs')))"

text \<open>
  The bottle filter of \<open>updateGame\<close>: a bottle that is inactive on entry is dropped untouched;
  an active one is moved, tested against the cars, and kept iff it is still active.
\<close>

fun updateBottles :: "bottle list \<Rightarrow> car list \<Rightarrow> bottle list \<times> car list" where
  "updateBottles [] cs = ([], cs)"
| "updateBottles (b # bs) cs =
    (if \<not> active b then updateBottles bs cs
     else (case hitLoop (updateBottlePhysics b) cs of
             (b2, cs1) \<Rightarrow>
               (case updateBottles bs cs1 of
                  (bs', cs2) \<Rightarrow> (if active b2 then b2 # bs' else bs', cs2))))"

section \<open>Power-ups\<close>

text \<open>
  \<open>applyPowerUp\<close>. The speed case also calls \<open>setTimeout\<close> with a closure over the car object:
  the second component lists the timers scheduled, each by the identity of its car.
\<close>

definition applyPowerUp :: "powerUp \<Rightarrow> car \<Rightarrow> car \<times> nat list" where
  "applyPowerUp pu car =
    (case pu_type pu of
       Speed \<Rightarrow> (car\<lparr>maxSpeed := min (maxSpeed car + 2) 12\<rparr>, [car_ref car])
     | Shield \<Rightarrow>
         (car\<lparr>powerUps := powerUps car @
                 [\<lparr>pu_id = pu_id pu, pu_type = pu_type pu, pu_position = pu_position pu,
                   collected = collected pu, duration = 8000\<rparr>]\<rparr>, [])
     | Health \<Rightarrow> (car\<lparr>health := min (health car + 30) (maxHealth car)\<rparr>, [])
     | Bottles \<Rightarrow> (car\<lparr>bottles := bottles car + 3\<rparr>, []))"

definition handlePowerUpCollection :: "powerUp \<Rightarrow> car \<Rightarrow> bool \<times> powerUp \<times> car \<times> nat list" where
  "handlePowerUpCollection pu car =
    (if collected pu then (False, pu, car, [])
     else if checkCollision (pu_position pu) (position car) 15 20
     then (let pu' = pu\<lparr>collected := True\<rparr>
           in (case applyPowerUp pu' car of (car', ts) \<Rightarrow> (True, pu', car', ts)))
     else (False, pu, car, []))"

fun collectLoop :: "powerUp \<Rightarrow> car list \<Rightarrow> powerUp \<times> car list \<times> nat list" where
  "collectLoop pu [] = (pu, [], [])"
| "collectLoop pu (c # cs) =
    (if \<not> isEliminated c
     then (case handlePowerUpCollection pu c of
             (True, pu', c', ts) \<Rightarrow> (pu', c' # cs, ts)
           | (False, pu', c', ts) \<Rightarrow>
               (case collectLoop pu' cs of (pu'', cs', ts') \<Rightarrow> (pu'', c' # cs', ts @ ts')))
     else (case collectLoop pu cs of (pu'', cs', ts') \<Rightarrow> (pu'', c # cs', ts')))"

fun updatePowerUps :: "powerUp list \<Rightarrow> car list \<Rightarrow> powerUp list \<times> car list \<times> nat list" where
  "updatePowerUps [] cs = ([], cs, [])"
| "updatePowerUps (pu # pus) cs =
    (if collected pu
     then (case updatePowerUps pus cs of (pus', cs', ts) \<Rightarrow> (pu # pus', cs', ts))
     else (case collectLoop pu cs of
             (pu', cs1, ts1) \<Rightarrow>
               (case updatePowerUps pus cs1 of
                  (pus', cs2, ts2) \<Rightarrow> (pu' # pus', cs2, ts1 @ ts2))))"

text \<open>
  \<open>generatePowerUpPositions\<close> and \<open>generatePowerUps\<close>: \<open>rnd k\<close> is the value of the \<open>k\<close>-th call of
  \<open>Math.random()\<close>, \<open>uu k\<close> of the \<open>k\<close>-th call of \<open>uuidv4()\<close>, counted from 0 within the operation.
\<close>

definition generatePowerUpPositions :: "nat \<Rightarrow> (nat \<Rightarrow> real) \<Rightarrow> vec list" where
  "generatePowerUpPositions count rnd =
    (let margin = 50
     in map (\<lambda>i. \<lparr>x = margin + rnd (2 * i) * (TRACK_WIDTH - 2 * margin),
                    y = margin + rnd (2 * i + 1) * (TRACK_HEIGHT - 2 * margin)\<rparr>) [0..<count])"

definition powerUpTypes :: "powerUpType list" where
  "powerUpTypes = [Speed, Shield, Health, Bottles]"

definition generatePowerUps :: "(nat \<Rightarrow> string) \<Rightarrow> (nat \<Rightarrow> real) \<Rightarrow> powerUp list" where
  "generatePowerUps uu rnd =
    (let positions = generatePowerUpPositions 8 rnd
     in map (\<lambda>i. \<lparr>pu_id = uu i,
                    pu_type = powerUpTypes ! (i mod length powerUpTypes),
                    pu_position = positions ! i,
                    collected = False\<rparr>) [0..<length positions])"


section \<open>Lap tracking and the tick of one session\<close>

text \<open>
  The body of the lap-tracking \<open>forEach\<close> for one car; \<open>gs\<close> carries \<open>raceTime\<close>, \<open>maxLaps\<close>
  and the two fields the body writes, \<open>gameEnded\<close> and \<open>winner\<close>.
\<close>

definition lapStep :: "gameState \<Rightarrow> car \<Rightarrow> gameState \<times> car" where
  "lapStep gs car =
    (if isEliminated car then (gs, car)
     else (let c1 = car\<lparr>totalTime := raceTime gs\<rparr>
           in if x (position c1) < 50 \<and> y (position c1) < 100 \<and> x (velocity c1) > 0
              then (if lap c1 < maxLaps gs
                    then (let c2 = c1\<lparr>lap := lap c1 + 1\<rparr>
                          in if lap c2 \<ge> maxLaps gs
                             then (gs\<lparr>gameEnded := True, winner := Some (playerId c2)\<rparr>, c2)
                             else (gs, c2))
                    else (gs, c1))
              else (gs, c1)))"

fun trackLaps :: "gameState \<Rightarrow> car list \<Rightarrow> gameState \<times> car list" where
  "trackLaps gs [] = (gs, [])"
| "trackLaps gs (c # cs) =
    (case lapStep gs c of
       (gs1, c') \<Rightarrow> (case trackLaps gs1 cs of (gs2, cs') \<Rightarrow> (gs2, c' # cs')))"

text \<open>The last-vehicle-standing test that follows lap tracking.\<close>

definition checkActivePlayers :: "gameState \<Rightarrow> gameState" where
  "checkActivePlayers gs =
    (let activePlayers = filter (\<lambda>p. \<not> isEliminated p) (gs_players gs)
     in if length activePlayers \<le> 1 \<and> \<not> gameEnded gs
        then (let gs1 = gs\<lparr>gameEnded := True\<rparr>
              in if length activePlayers = 1
                 then gs1\<lparr>winner := Some (playerId (activePlayers ! 0))\<rparr>
                 else gs1)
        else gs)"

definition respawnPowerUps :: "(nat \<Rightarrow> string) \<Rightarrow> (nat \<Rightarrow> real) \<Rightarrow> gameState \<Rightarrow> gameState" where
  "respawnPowerUps uu rnd gs =
    (if raceTime gs mod 600 = 0
     then (let uncollectedCount = length (filter (\<lambda>p. \<not> collected p) (gs_powerUps gs))
           in if uncollectedCount < 4
              then (let newPowerUps = generatePowerUps uu rnd
                    in gs\<lparr>gs_powerUps := gs_powerUps gs @ take 2 newPowerUps\<rparr>)
              else gs)
     else gs)"

text \<open>
  \<open>updateGame\<close> from \<open>gameState.raceTime++\<close> to the respawn of power-ups, on the session
  alone; the second component lists the speed timers scheduled during the tick.
\<close>

definition tickGameState :: "(nat \<Rightarrow> string) \<Rightarrow> (nat \<Rightarrow> real) \<Rightarrow> gameState \<Rightarrow> gameState \<times> nat list" where
  "tickGameState uu rnd gs =
    (let gs1 = gs\<lparr>raceTime := raceTime gs + 1\<rparr>
     in case updateBottles (gs_bottles gs1) (gs_players gs1) of
          (bs, cs1) \<Rightarrow>
            (case updatePowerUps (gs_powerUps gs1) cs1 of
               (pus, cs2, ts) \<Rightarrow>
                 (case trackLaps (gs1\<lparr>gs_bottles := bs, gs_powerUps := pus\<rparr>) cs2 of
                    (gs2, cs3) \<Rightarrow>
                      (respawnPowerUps uu rnd (checkActivePlayers (gs2\<lparr>gs_players := cs3\<rparr>)), ts))))"

section \<open>The server: room registry, timers, handlers\<close>

text \<open>
  \<open>rooms\<close> and \<open>gameLoops\<close> are the two \<open>Map\<close>s of the source, as association lists in
  insertion order. \<open>intervals\<close> holds the live \<open>setInterval\<close> timers (handle, room id):
  \<open>clearInterval\<close> removes one. \<open>timeouts\<close> holds the pending speed-reset \<open>setTimeout\<close>s
  in the order they were scheduled (all with the same delay), each by the identity of
  the car its closure holds. \<open>nextHandle\<close> and \<open>nextRef\<close> allocate timer handles and car
  identities. The \<open>emit\<close> calls and \<open>console.log\<close> do not touch this state and are left out.
\<close>

record state =
  rooms :: "(string \<times> room) list"
  gameLoops :: "(string \<times> nat) list"
  intervals :: "(nat \<times> string) list"
  timeouts :: "nat list"
  nextHandle :: nat
  nextRef :: nat

definition initialState :: state where
  "initialState = \<lparr>rooms = [], gameLoops = [], intervals = [], timeouts = [],
                    nextHandle = 0, nextRef = 0\<rparr>"

definition createInitialGameState :: "string \<Rightarrow> gameState" where
  "createInitialGameState roomId =
    \<lparr>gs_id = roomId, gs_players = [], gs_bottles = [], gs_powerUps = [],
     gameStarted = False, gameEnded = False, winner = None, raceTime = 0, maxLaps = 3\<rparr>"

definition colors :: "string list" where
  "colors = [''#ff4444'', ''#44ff44'', ''#4444ff'', ''#ffff44'', ''#ff44ff'', ''#44ffff'']"

definition startPositions :: "vec list" where
  "startPositions = [\<lparr>x = 100, y = 100\<rparr>, \<lparr>x = 100, y = 140\<rparr>, \<lparr>x = 100, y = 180\<rparr>,
                     \<lparr>x = 100, y = 220\<rparr>, \<lparr>x = 100, y = 260\<rparr>, \<lparr>x = 100, y = 300\<rparr>]"

text \<open>\<open>createCar\<close>; \<open>uuid\<close> is the value of its \<open>uuidv4()\<close> call, \<open>r\<close> the identity of the new object.\<close>

definition createCar :: "string \<Rightarrow> string \<Rightarrow> nat \<Rightarrow> string \<Rightarrow> nat \<Rightarrow> car" where
  "createCar pid pname index uuid r =
    \<lparr>car_id = uuid,
     playerId = pid,
     playerName = pname,
     position = (if index < length startPositions then startPositions ! index
                 else \<lparr>x = 100, y = 100 + real index * 40\<rparr>),
     velocity = \<lparr>x = 0, y = 0\<rparr>,
     rotation = 0,
     health = 100,
     maxHealth = 100,
     speed = 0,
     maxSpeed = MAX_SPEED,
     acceleration = ACCELERATION,
     bottles = 5,
     lap = 0,
     lapTime = 0,
     totalTime = 0,
     isEliminated = False,
     powerUps = [],
     color = colors ! (index mod length colors),
     car_ref = r\<rparr>"

text \<open>\<open>clearInterval(gameLoop); gameLoops.delete(roomId)\<close>, under \<open>if (gameLoop)\<close>.\<close>

definition stopGameLoop :: "string \<Rightarrow> state \<Rightarrow> state" where
  "stopGameLoop roomId s =
    (case map_of (gameLoops s) roomId of
       None \<Rightarrow> s
     | Some h \<Rightarrow> s\<lparr>intervals := filter (\<lambda>(h', r). h' \<noteq> h) (intervals s),
                    gameLoops := AList.delete roomId (gameLoops s)\<rparr>)"

definition startGameLoop :: "string \<Rightarrow> state \<Rightarrow> state" where
  "startGameLoop roomId s =
    (let gameLoop = nextHandle s
     in s\<lparr>intervals := intervals s @ [(gameLoop, roomId)],
          gameLoops := AList.update roomId gameLoop (gameLoops s),
          nextHandle := gameLoop + 1\<rparr>)"

definition updateGame :: "string \<Rightarrow> (nat \<Rightarrow> string) \<Rightarrow> (nat \<Rightarrow> real) \<Rightarrow> state \<Rightarrow> state" where
  "updateGame roomId uu rnd s =
    (case map_of (rooms s) roomId of
       None \<Rightarrow> s
     | Some room \<Rightarrow>
         if \<not> gameStarted (room_gameState room) \<or> gameEnded (room_gameState room) then s
         else (case tickGameState uu rnd (room_gameState room) of
                 (gs', ts) \<Rightarrow>
                   (let s1 = s\<lparr>rooms := AList.update roomId (room\<lparr>room_gameState := gs'\<rparr>) (rooms s),
                                timeouts := timeouts s @ ts\<rparr>
                    in if gameEnded gs' then stopGameLoop roomId s1 else s1)))"

text \<open>The \<open>createRoom\<close> handler; \<open>roomId\<close> is the value of its \<open>uuidv4()\<close> call.\<close>

definition createRoom :: "string \<Rightarrow> string \<Rightarrow> string \<Rightarrow> string \<Rightarrow> state \<Rightarrow> state" where
  "createRoom sid roomName pname roomId s =
    (let room = \<lparr>room_id = roomId, room_name = roomName,
                 room_players = [\<lparr>member_id = sid, member_name = pname\<rparr>],
                 maxPlayers = 6, host = sid,
                 room_gameState = createInitialGameState roomId\<rparr>
     in s\<lparr>rooms := AList.update roomId room (rooms s)\<rparr>)"

text \<open>The \<open>joinRoom\<close> handler: \<open>Inl\<close> is the reason sent with \<open>joinError\<close>, the state unchanged.\<close>

definition joinRoom :: "string \<Rightarrow> string \<Rightarrow> string \<Rightarrow> state \<Rightarrow> string + state" where
  "joinRoom sid roomId pname s =
    (case map_of (rooms s) roomId of
       None \<Rightarrow> Inl ''Room not found''
     | Some room \<Rightarrow>
         if length (room_players room) \<ge> maxPlayers room then Inl ''Room is full''
         else if find (\<lambda>p. member_id p = sid) (room_players room) \<noteq> None
         then Inl ''Already in room''
         else Inr (s\<lparr>rooms := AList.update roomId
                      (room\<lparr>room_players := room_players room @
                                [\<lparr>member_id = sid, member_name = pname\<rparr>]\<rparr>) (rooms s)\<rparr>))"

definition startGame :: "string \<Rightarrow> string \<Rightarrow> (nat \<Rightarrow> string) \<Rightarrow> (nat \<Rightarrow> real) \<Rightarrow> state \<Rightarrow> state" where
  "startGame sid roomId uu rnd s =
    (case map_of (rooms s) roomId of
       None \<Rightarrow> s
     | Some room \<Rightarrow>
         if host room \<noteq> sid \<or> length (room_players room) < 2 then s
         else (let n = length (room_players room);
                   cars = map (\<lambda>(index, player).
                                 createCar (member_id player) (member_name player) index
                                   (uu index) (nextRef s + index))
                              (enumerate 0 (room_players room));
                   gs = (room_gameState room)
                          \<lparr>gs_players := cars,
                           gs_powerUps := generatePowerUps (\<lambda>k. uu (n + k)) rnd,
                           gameStarted := True,
                           gameEnded := False,
                           raceTime := 0\<rparr>
               in startGameLoop roomId
                    (s\<lparr>rooms := AList.update roomId (room\<lparr>room_gameState := gs\<rparr>) (rooms s),
                       nextRef := nextRef s + n\<rparr>)))"

text \<open>\<open>f\<close> applied to the first element that satisfies \<open>P\<close>: the in-place mutation of what \<open>find\<close> returned.\<close>

fun updateFirst :: "('a \<Rightarrow> bool) \<Rightarrow> ('a \<Rightarrow> 'a) \<Rightarrow> 'a list \<Rightarrow> 'a list" where
  "updateFirst P f [] = []"
| "updateFirst P f (a # as) = (if P a then f a # as else a # updateFirst P f as)"

text \<open>The \<open>playerInput\<close> handler; \<open>bid\<close> is the identity a new bottle would get.\<close>

definition playerInput :: "string \<Rightarrow> string \<Rightarrow> keys \<Rightarrow> string \<Rightarrow> state \<Rightarrow> state" where
  "playerInput sid roomId input bid s =
    (case map_of (rooms s) roomId of
       None \<Rightarrow> s
     | Some room \<Rightarrow>
         if \<not> gameStarted (room_gameState room) then s
         else (case find (\<lambda>p. playerId p = sid) (gs_players (room_gameState room)) of
                 None \<Rightarrow> s
               | Some car \<Rightarrow>
                   if isEliminated car then s
                   else (let gs = room_gameState room;
                             fire = (space input \<and> bottles car > 0);
                             bs = (if fire then gs_bottles gs @ [createBottle car bid]
                                   else gs_bottles gs);
                             car1 = (if fire then car\<lparr>bottles := bottles car - 1\<rparr> else car);
                             car2 = updateCarPhysics car1 input;
                             gs' = gs\<lparr>gs_bottles := bs,
                                     gs_players := updateFirst (\<lambda>p. playerId p = sid) (\<lambda>c. car2)
                                                     (gs_players gs)\<rparr>
                         in s\<lparr>rooms := AList.update roomId (room\<lparr>room_gameState := gs'\<rparr>)
                                          (rooms s)\<rparr>)))"

fun findIndex :: "('a \<Rightarrow> bool) \<Rightarrow> 'a list \<Rightarrow> nat option" where
  "findIndex P [] = None"
| "findIndex P (a # as) =
    (if P a then Some 0 else (case findIndex P as of None \<Rightarrow> None | Some i \<Rightarrow> Some (Suc i)))"

text \<open>\<open>xs.splice(i, 1)\<close>.\<close>

definition splice1 :: "nat \<Rightarrow> 'a list \<Rightarrow> 'a list" where
  "splice1 i xs = take i xs @ drop (Suc i) xs"

text \<open>
  The \<open>disconnect\<close> handler: the loop over \<open>rooms.entries()\<close> stops (\<open>break\<close>) at the first
  room that lists the socket, so only that room is treated.
\<close>

definition disconnect :: "string \<Rightarrow> state \<Rightarrow> state" where
  "disconnect sid s =
    (case find (\<lambda>(roomId, room). findIndex (\<lambda>p. member_id p = sid) (room_players room) \<noteq> None)
               (rooms s) of
       None \<Rightarrow> s
     | Some (roomId, room) \<Rightarrow>
         (case findIndex (\<lambda>p. member_id p = sid) (room_players room) of
            None \<Rightarrow> s
          | Some playerIndex \<Rightarrow>
              (let room1 = room\<lparr>room_players := splice1 playerIndex (room_players room),
                                room_gameState := (room_gameState room)
                                   \<lparr>gs_players := filter (\<lambda>p. playerId p \<noteq> sid)
                                                    (gs_players (room_gameState room))\<rparr>\<rparr>
               in if length (room_players room1) = 0
                  then (let s1 = stopGameLoop roomId s
                        in s1\<lparr>rooms := AList.delete roomId (rooms s1)\<rparr>)
                  else (let room2 = (if host room1 = sid \<and> length (room_players room1) > 0
                                     then room1\<lparr>host := member_id (room_players room1 ! 0)\<rparr>
                                     else room1)
                        in s\<lparr>rooms := AList.update roomId room2 (rooms s)\<rparr>))))"

text \<open>
  The callback of the speed power-up's \<open>setTimeout\<close>: \<open>car.maxSpeed = PHYSICS.MAX_SPEED\<close> on the
  car object of the oldest pending timer, wherever that object still is.
\<close>

definition resetMaxSpeed :: "nat \<Rightarrow> room \<Rightarrow> room" where
  "resetMaxSpeed r room =
    room\<lparr>room_gameState := (room_gameState room)
       \<lparr>gs_players := map (\<lambda>c. if car_ref c = r then c\<lparr>maxSpeed := MAX_SPEED\<rparr> else c)
                          (gs_players (room_gameState room))\<rparr>\<rparr>"

definition speedTimeout :: "state \<Rightarrow> state" where
  "speedTimeout s =
    (case timeouts s of
       [] \<Rightarrow> s
     | r # rs \<Rightarrow> s\<lparr>timeouts := rs,
                    rooms := map (\<lambda>(roomId, room). (roomId, resetMaxSpeed r room)) (rooms s)\<rparr>)"

text \<open>The callback of a \<open>setInterval\<close> timer: nothing happens once the timer is cleared.\<close>

definition intervalTick :: "nat \<Rightarrow> (nat \<Rightarrow> string) \<Rightarrow> (nat \<Rightarrow> real) \<Rightarrow> state \<Rightarrow> state" where
  "intervalTick h uu rnd s =
    (case map_of (intervals s) h of
       None \<Rightarrow> s
     | Some roomId \<Rightarrow> updateGame roomId uu rnd s)"

section \<open>Events and runs\<close>

datatype event =
    CreateRoom string string string string
  | JoinRoom string string string
  | StartGame string string "nat \<Rightarrow> string" "nat \<Rightarrow> real"
  | PlayerInput string string keys string
  | Disconnect string
  | Tick nat "nat \<Rightarrow> string" "nat \<Rightarrow> real"
  | SpeedTimeout

fun step :: "state \<Rightarrow> event \<Rightarrow> state" where
  "step s (CreateRoom sid roomName pname roomId) = createRoom sid roomName pname roomId s"
| "step s (JoinRoom sid roomId pname) =
    (case joinRoom sid roomId pname s of Inl err \<Rightarrow> s | Inr s' \<Rightarrow> s')"
| "step s (StartGame sid roomId uu rnd) = startGame sid roomId uu rnd s"
| "step s (PlayerInput sid roomId input bid) = playerInput sid roomId input bid s"
| "step s (Disconnect sid) = disconnect sid s"
| "step s (Tick h uu rnd) = intervalTick h uu rnd s"
| "step s SpeedTimeout = speedTimeout s"

definition run :: "state \<Rightarrow> event list \<Rightarrow> state" where
  "run s evs = foldl step s evs"

section \<open>The specification's notions\<close>

text \<open>The magnitude of a velocity vector.\<close>

definition speedOf :: "vec \<Rightarrow> real" where
  "speedOf v = sqrt ((x v)\<^sup>2 + (y v)\<^sup>2)"

definition scale :: "real \<Rightarrow> vec \<Rightarrow> vec" where
  "scale k v = \<lparr>x = k * x v, y = k * y v\<rparr>"


text \<open>
  The physics update as the specification words it (Physics Kernel, steps 1 to 6), one
  definition per step, to be compared with \<open>updateCarPhysics\<close>.
\<close>

definition spec_forward :: "keys \<Rightarrow> car \<Rightarrow> car" where
  "spec_forward input car =
    (if up input
     then car\<lparr>velocity := \<lparr>x = x (velocity car) + 0.5 * cos (rotation car),
                           y = y (velocity car) + 0.5 * sin (rotation car)\<rparr>\<rparr>
     else car)"

definition spec_brake :: "keys \<Rightarrow> car \<Rightarrow> car" where
  "spec_brake input car = (if down input then car\<lparr>velocity := scale 0.8 (velocity car)\<rparr> else car)"

definition spec_turn :: "keys \<Rightarrow> car \<Rightarrow> car" where
  "spec_turn input car =
    (let s = speedOf (velocity car)
     in if s > 0.5
        then car\<lparr>rotation := rotation car - (if left input then 0.08 * (s / 8) else 0)
                                            + (if right input then 0.08 * (s / 8) else 0)\<rparr>
        else car)"

definition spec_friction :: "car \<Rightarrow> car" where
  "spec_friction car = car\<lparr>velocity := scale 0.95 (velocity car)\<rparr>"

definition spec_clamp :: "car \<Rightarrow> car" where
  "spec_clamp car =
    (let s = speedOf (velocity car)
     in if s > maxSpeed car then car\<lparr>velocity := scale (maxSpeed car / s) (velocity car)\<rparr>
        else car)"

definition spec_integrate :: "car \<Rightarrow> car" where
  "spec_integrate car =
    car\<lparr>position := \<lparr>x = x (position car) + x (velocity car),
                      y = y (position car) + y (velocity car)\<rparr>\<rparr>"

definition spec_physics :: "keys \<Rightarrow> car \<Rightarrow> car" where
  "spec_physics input car =
    spec_integrate (spec_clamp (spec_friction (spec_turn input (spec_brake input
      (spec_forward input car)))))"

text \<open>
  Boundary handling on one axis as the specification words it: a coordinate \<open>p\<close> past a
  margin is clamped to it, and the velocity component \<open>v\<close> becomes half its absolute
  value, directed inward.
\<close>

definition reflectAxis :: "real \<Rightarrow> real \<Rightarrow> real \<times> real \<Rightarrow> real \<times> real" where
  "reflectAxis lo hi pv =
    (case pv of (p, v) \<Rightarrow>
       if p < lo then (lo, \<bar>v\<bar> / 2)
       else if p > hi then (hi, - (\<bar>v\<bar> / 2))
       else (p, v))"

text \<open>A position inside the track rectangle \<open>[0,800] \<times> [0,600]\<close>.\<close>

definition inTrack :: "vec \<Rightarrow> bool" where
  "inTrack p = (0 \<le> x p \<and> x p \<le> 800 \<and> 0 \<le> y p \<and> y p \<le> 600)"

text \<open>A projectile after integration: its position advanced by its velocity, all else as it was.\<close>

definition moved :: "bottle \<Rightarrow> bottle" where
  "moved b =
    b\<lparr>bottle_position := \<lparr>x = x (bottle_position b) + x (bottle_velocity b),
                            y = y (bottle_position b) + y (bottle_velocity b)\<rparr>\<rparr>"

text \<open>
  A qualifying hit: a non-eliminated Vehicle other than the projectile's owner whose
  circle (radius 20) overlaps the projectile's circle (radius 5).
\<close>

definition qualifies :: "bottle \<Rightarrow> car \<Rightarrow> bool" where
  "qualifies b c =
    (\<not> isEliminated c \<and> playerId c \<noteq> bottle_playerId b \<and>
     sqrt ((x (bottle_position b) - x (position c))\<^sup>2 +
           (y (bottle_position b) - y (position c))\<^sup>2) < 5 + 20)"

text \<open>What a hit does to the Vehicle: damage, knockback of magnitude 3, elimination at health \<open>\<le> 0\<close>.\<close>

definition struck :: "bottle \<Rightarrow> car \<Rightarrow> car" where
  "struck b c =
    (let angle = atan2 (y (position c) - y (bottle_position b))
                       (x (position c) - x (bottle_position b))
     in c\<lparr>health := health c - damage b,
          velocity := \<lparr>x = x (velocity c) + 3 * cos angle,
                        y = y (velocity c) + 3 * sin angle\<rparr>,
          isEliminated := (health c - damage b \<le> 0)\<rparr>)"

section \<open>Invariants of the reachable states\<close>

definition car_health_ok :: "car \<Rightarrow> bool" where
  "car_health_ok c =
    (maxHealth c = 100 \<and> health c \<le> maxHealth c \<and> - 20 < health c \<and>
     (\<not> isEliminated c \<longrightarrow> 0 < health c))"

definition gs_health_ok :: "gameState \<Rightarrow> bool" where
  "gs_health_ok gs =
    (list_all car_health_ok (gs_players gs) \<and> list_all (\<lambda>b. damage b = 20) (gs_bottles gs))"

definition health_inv :: "state \<Rightarrow> bool" where
  "health_inv s = list_all (\<lambda>(roomId, room). gs_health_ok (room_gameState room)) (rooms s)"

definition room_ok :: "room \<Rightarrow> bool" where
  "room_ok r =
    (room_players r \<noteq> [] \<and>
     host r = member_id (hd (room_players r)) \<and>
     distinct (map member_id (room_players r)) \<and>
     maxPlayers r = 6 \<and>
     list_all (\<lambda>c. playerId c \<in> set (map member_id (room_players r)))
       (gs_players (room_gameState r)))"

definition registry_inv :: "state \<Rightarrow> bool" where
  "registry_inv s =
    (distinct (map fst (rooms s)) \<and> list_all (\<lambda>(roomId, room). room_ok room) (rooms s))"

text \<open>The session of a room, and the car \<open>find\<close> returns for a socket in it.\<close>

definition sessionOf :: "string \<Rightarrow> state \<Rightarrow> gameState option" where
  "sessionOf roomId s = map_option room_gameState (map_of (rooms s) roomId)"

definition carOf :: "string \<Rightarrow> string \<Rightarrow> state \<Rightarrow> car option" where
  "carOf sid roomId s =
    (case sessionOf roomId s of
       None \<Rightarrow> None
     | Some gs \<Rightarrow> find (\<lambda>p. playerId p = sid) (gs_players gs))"

fun startsGame :: "string \<Rightarrow> event \<Rightarrow> bool" where
  "startsGame roomId (StartGame sid roomId' uu rnd) = (roomId' = roomId)"
| "startsGame roomId e = False"

fun createsRoom :: "string \<Rightarrow> event \<Rightarrow> bool" where
  "createsRoom roomId (CreateRoom sid roomName pname roomId') = (roomId' = roomId)"
| "createsRoom roomId e = False"

text \<open>What the disconnect handler makes of the room it treats, with the removal of the member
  written as a filter (the same list when member identities are distinct).\<close>

definition leaveRoom :: "string \<Rightarrow> room \<Rightarrow> room" where
  "leaveRoom sid room =
    (let players' = filter (\<lambda>p. member_id p \<noteq> sid) (room_players room);
         room1 = room\<lparr>room_players := players',
                      room_gameState := (room_gameState room)
                        \<lparr>gs_players := filter (\<lambda>p. playerId p \<noteq> sid)
                                         (gs_players (room_gameState room))\<rparr>\<rparr>
     in if host room = sid \<and> players' \<noteq> [] then room1\<lparr>host := member_id (hd players')\<rparr>
        else room1)"

text \<open>
  How a session can differ after an event that neither starts a game in its room nor
  creates the room anew: a started session is still started, an ended session is still
  ended, and no new player has a car.
\<close>

definition evolves :: "gameState \<Rightarrow> gameState \<Rightarrow> bool" where
  "evolves gs gs' =
    ((gameStarted gs \<longrightarrow> gameStarted gs') \<and>
     (gameEnded gs \<longrightarrow> gameEnded gs') \<and>
     set (map playerId (gs_players gs')) \<subseteq> set (map playerId (gs_players gs)))"

section \<open>Concrete inputs\<close>

definition noKeys :: keys where
  "noKeys = \<lparr>up = False, down = False, left = False, right = False, space = False\<rparr>"

text \<open>A fresh car of player \<open>pid\<close> (as \<open>createCar\<close> makes it) placed at a position with a velocity.\<close>

definition carAt :: "string \<Rightarrow> real \<Rightarrow> real \<Rightarrow> real \<Rightarrow> real \<Rightarrow> car" where
  "carAt pid px py vx vy =
    (createCar pid pid 0 ''car'' 0)\<lparr>position := \<lparr>x = px, y = py\<rparr>, velocity := \<lparr>x = vx, y = vy\<rparr>\<rparr>"

text \<open>An active bottle of player \<open>pid\<close>, with the damage \<open>createBottle\<close> gives it.\<close>

definition bottleAt :: "string \<Rightarrow> real \<Rightarrow> real \<Rightarrow> real \<Rightarrow> real \<Rightarrow> bottle" where
  "bottleAt pid px py vx vy =
    \<lparr>bottle_id = ''bottle'', bottle_position = \<lparr>x = px, y = py\<rparr>,
     bottle_velocity = \<lparr>x = vx, y = vy\<rparr>, bottle_playerId = pid, damage = 20, active = True\<rparr>"

text \<open>
  One projectile hit and one health pick-up, as the tick performs them on the list of
  cars: a bottle of player B and an uncollected health power-up, both at (100, 100).
\<close>

definition hitOnce :: "car list \<Rightarrow> car list" where
  "hitOnce cs = snd (hitLoop (bottleAt ''B'' 100 100 12 0) cs)"

definition healOnce :: "car list \<Rightarrow> car list" where
  "healOnce cs =
    fst (snd (collectLoop \<lparr>pu_id = ''h'', pu_type = Health, pu_position = \<lparr>x = 100, y = 100\<rparr>,
                            collected = False\<rparr> cs))"

text \<open>Environment values for the runs below: every identity is \<open>''u''\<close>, every random number 1/2.\<close>

definition uu0 :: "nat \<Rightarrow> string" where "uu0 = (\<lambda>k. ''u'')"
definition rnd0 :: "nat \<Rightarrow> real" where "rnd0 = (\<lambda>k. 1 / 2)"

text \<open>
  Ann creates room r, Bob joins, Ann starts the race, Cid joins late, Bob disconnects, and
  the room's timer ticks once: one Vehicle is left, so the race ends with Ann as winner.
\<close>

definition raceWonByAnn :: "event list" where
  "raceWonByAnn =
    [CreateRoom ''A'' ''room'' ''Ann'' ''r'', JoinRoom ''B'' ''r'' ''Bob'',
     StartGame ''A'' ''r'' uu0 rnd0, JoinRoom ''C'' ''r'' ''Cid'', Disconnect ''B'',
     Tick 0 uu0 rnd0]"

text \<open>Ann and Bob race; Ann presses fire five times, which uses up her five bottles.\<close>

definition annOutOfBottles :: "event list" where
  "annOutOfBottles =
    [CreateRoom ''A'' ''room'' ''Ann'' ''r'', JoinRoom ''B'' ''r'' ''Bob'',
     StartGame ''A'' ''r'' uu0 rnd0,
     PlayerInput ''A'' ''r'' (noKeys\<lparr>space := True\<rparr>) ''b1'',
     PlayerInput ''A'' ''r'' (noKeys\<lparr>space := True\<rparr>) ''b2'',
     PlayerInput ''A'' ''r'' (noKeys\<lparr>space := True\<rparr>) ''b3'',
     PlayerInput ''A'' ''r'' (noKeys\<lparr>space := True\<rparr>) ''b4'',
     PlayerInput ''A'' ''r'' (noKeys\<lparr>space := True\<rparr>) ''b5'']"

text \<open>
  After Ann's win she starts the room again (with Cid), Dan joins late, Ann and Cid
  disconnect, and the new timer ticks: no Vehicle is left.
\<close>

definition secondRaceEmptied :: "event list" where
  "secondRaceEmptied =
    raceWonByAnn @
    [StartGame ''A'' ''r'' uu0 rnd0, JoinRoom ''D'' ''r'' ''Dan'', Disconnect ''A'',
     Disconnect ''C'', Tick 1 uu0 rnd0]"

text \<open>The room after the run \<open>raceWonByAnn\<close>, and after the run \<open>annOutOfBottles\<close>.\<close>

definition roomAfterWin :: room where
  "roomAfterWin =
    \<lparr>room_id = ''r'', room_name = ''room'',
     room_players = [\<lparr>member_id = ''A'', member_name = ''Ann''\<rparr>,
                     \<lparr>member_id = ''C'', member_name = ''Cid''\<rparr>],
     maxPlayers = 6, host = ''A'',
     room_gameState =
       \<lparr>gs_id = ''r'',
        gs_players = [(createCar ''A'' ''Ann'' 0 ''u'' 0)\<lparr>totalTime := 1\<rparr>],
        gs_bottles = [],
        gs_powerUps = generatePowerUps uu0 rnd0,
        gameStarted = True, gameEnded = True, winner = Some ''A'', raceTime = 1, maxLaps = 3\<rparr>\<rparr>"

definition roomOutOfBottles :: room where
  "roomOutOfBottles =
    \<lparr>room_id = ''r'', room_name = ''room'',
     room_players = [\<lparr>member_id = ''A'', member_name = ''Ann''\<rparr>,
                     \<lparr>member_id = ''B'', member_name = ''Bob''\<rparr>],
     maxPlayers = 6, host = ''A'',
     room_gameState =
       \<lparr>gs_id = ''r'',
        gs_players = [(createCar ''A'' ''Ann'' 0 ''u'' 0)\<lparr>bottles := 0\<rparr>,
                      createCar ''B'' ''Bob'' 1 ''u'' 1],
        gs_bottles = map (\<lambda>bid. createBottle (createCar ''A'' ''Ann'' 0 ''u'' 0) bid)
                       [''b1'', ''b2'', ''b3'', ''b4'', ''b5''],
        gs_powerUps = generatePowerUps uu0 rnd0,
        gameStarted = True, gameEnded = False, winner = None, raceTime = 0, maxLaps = 3\<rparr>\<rparr>"



text \<open>Inputs of a late joiner Cid, and a power-up timer.\<close>

definition lateInput :: "event list" where
  "lateInput = [PlayerInput ''C'' ''r'' (noKeys\<lparr>up := True, space := True\<rparr>) ''b6'', SpeedTimeout]"

text \<open>
  Ann creates room r, Bob joins, Ann sends \<open>startGame\<close> twice, and Ann disconnects; then Bob
  disconnects too.
\<close>

definition hostLeaves :: "event list" where
  "hostLeaves =
    [CreateRoom ''A'' ''room'' ''Ann'' ''r'', JoinRoom ''B'' ''r'' ''Bob'',
     StartGame ''A'' ''r'' uu0 rnd0, StartGame ''A'' ''r'' uu0 rnd0, Disconnect ''A'']"

definition allLeave :: "event list" where
  "allLeave = hostLeaves @ [Disconnect ''B'']"

section \<open>Helper facts\<close>

subsection \<open>Vehicle physics\<close>

lemma keepInBounds_eq:
  "keepInBounds c =
     c\<lparr>position := \<lparr>x = fst (reflectAxis 20 780 (x (position c), x (velocity c))),
                     y = fst (reflectAxis 20 580 (y (position c), y (velocity c)))\<rparr>,
       velocity := \<lparr>x = snd (reflectAxis 20 780 (x (position c), x (velocity c))),
                     y = snd (reflectAxis 20 580 (y (position c), y (velocity c)))\<rparr>\<rparr>"
proof -
  let ?px = "x (position c)" and ?py = "y (position c)"
  consider (ll) "?px < 20" "?py < 20"
    | (lh) "?px < 20" "\<not> ?py < 20" "580 < ?py"
    | (li) "?px < 20" "\<not> ?py < 20" "\<not> 580 < ?py"
    | (hl) "\<not> ?px < 20" "780 < ?px" "?py < 20"
    | (hh) "\<not> ?px < 20" "780 < ?px" "\<not> ?py < 20" "580 < ?py"
    | (hi) "\<not> ?px < 20" "780 < ?px" "\<not> ?py < 20" "\<not> 580 < ?py"
    | (il) "\<not> ?px < 20" "\<not> 780 < ?px" "?py < 20"
    | (ih) "\<not> ?px < 20" "\<not> 780 < ?px" "\<not> ?py < 20" "580 < ?py"
    | (ii) "\<not> ?px < 20" "\<not> 780 < ?px" "\<not> ?py < 20" "\<not> 580 < ?py"
    by blast
  then show ?thesis
    by cases (simp_all add: keepInBounds_def reflectAxis_def TRACK_WIDTH_def TRACK_HEIGHT_def Let_def)
qed

lemma updateCarPhysics_eq: "updateCarPhysics car input = keepInBounds (spec_physics input car)"
proof -
  define v1 where "v1 = (if up input
               then \<lparr>x = x (velocity car) + cos (rotation car) * ACCELERATION,
                     y = y (velocity car) + sin (rotation car) * ACCELERATION\<rparr>
               else velocity car)"
  define v2 where "v2 = (if down input then \<lparr>x = x v1 * BRAKE_FORCE, y = y v1 * BRAKE_FORCE\<rparr> else v1)"
  define s where "s = sqrt ((x v2)\<^sup>2 + (y v2)\<^sup>2)"
  define r1 where "r1 = (if s > 0.5 \<and> left input
               then rotation car - TURN_SPEED * (s / MAX_SPEED) else rotation car)"
  define r2 where "r2 = (if s > 0.5 \<and> right input
               then r1 + TURN_SPEED * (s / MAX_SPEED) else r1)"
  define v3 where "v3 = \<lparr>x = x v2 * FRICTION, y = y v2 * FRICTION\<rparr>"
  define cs where "cs = sqrt ((x v3)\<^sup>2 + (y v3)\<^sup>2)"
  define v4 where "v4 = (if cs > maxSpeed car
               then \<lparr>x = (x v3 / cs) * maxSpeed car,
                     y = (y v3 / cs) * maxSpeed car\<rparr>
               else v3)"
  define p where "p = \<lparr>x = x (position car) + x v4, y = y (position car) + y v4\<rparr>"
  have code: "updateCarPhysics car input = keepInBounds (car\<lparr>velocity := v4, rotation := r2, position := p\<rparr>)"
    by (simp only: updateCarPhysics_def Let_def p_def v4_def cs_def v3_def r2_def r1_def s_def v2_def v1_def)
  have s1: "spec_forward input car = car\<lparr>velocity := v1\<rparr>"
    by (simp add: spec_forward_def v1_def ACCELERATION_def mult.commute)
  have s2: "spec_brake input (car\<lparr>velocity := v1\<rparr>) = car\<lparr>velocity := v2\<rparr>"
    by (simp add: spec_brake_def v2_def scale_def BRAKE_FORCE_def mult.commute)
  have s3: "spec_turn input (car\<lparr>velocity := v2\<rparr>) = car\<lparr>velocity := v2, rotation := r2\<rparr>"
    by (simp add: spec_turn_def r2_def r1_def s_def speedOf_def TURN_SPEED_def MAX_SPEED_def Let_def)
  have s4: "spec_friction (car\<lparr>velocity := v2, rotation := r2\<rparr>) = car\<lparr>velocity := v3, rotation := r2\<rparr>"
    by (simp add: spec_friction_def v3_def scale_def FRICTION_def mult.commute)
  have s5: "spec_clamp (car\<lparr>velocity := v3, rotation := r2\<rparr>) = car\<lparr>velocity := v4, rotation := r2\<rparr>"
    by (simp add: spec_clamp_def v4_def cs_def speedOf_def scale_def Let_def mult.commute)
  have s6: "spec_integrate (car\<lparr>velocity := v4, rotation := r2\<rparr>) = car\<lparr>velocity := v4, rotation := r2, position := p\<rparr>"
    by (simp add: spec_integrate_def p_def)
  show ?thesis
    by (simp only: code spec_physics_def s1 s2 s3 s4 s5 s6)
qed

lemma reflectAxis_range:
  "lo \<le> hi \<Longrightarrow> lo \<le> fst (reflectAxis lo hi pv) \<and> fst (reflectAxis lo hi pv) \<le> hi"
  by (cases pv) (simp add: reflectAxis_def)






lemma maxSpeed_spec_physics [simp]:
  "maxSpeed (spec_integrate c) = maxSpeed c"
  "maxSpeed (spec_clamp c) = maxSpeed c"
  "maxSpeed (spec_friction c) = maxSpeed c"
  "maxSpeed (spec_turn input c) = maxSpeed c"
  "maxSpeed (spec_brake input c) = maxSpeed c"
  "maxSpeed (spec_forward input c) = maxSpeed c"
  by (simp_all add: spec_integrate_def spec_clamp_def spec_friction_def spec_turn_def
        spec_brake_def spec_forward_def Let_def)

lemma maxSpeed_keepInBounds [simp]: "maxSpeed (keepInBounds c) = maxSpeed c"
  by (simp add: keepInBounds_eq)



lemma position_updateCarPhysics_bounds:
  "20 \<le> x (position (updateCarPhysics car input)) \<and> x (position (updateCarPhysics car input)) \<le> 780 \<and>
   20 \<le> y (position (updateCarPhysics car input)) \<and> y (position (updateCarPhysics car input)) \<le> 580"
  using reflectAxis_range [of 20 780] reflectAxis_range [of 20 580]
  by (simp add: updateCarPhysics_eq keepInBounds_eq)

lemma speedOf_axis [simp]: "speedOf \<lparr>x = a, y = 0\<rparr> = \<bar>a\<bar>"
  by (simp add: speedOf_def)

lemma sqrt_less_iff: "0 < r \<Longrightarrow> (sqrt a < r) = (a < r\<^sup>2)"
  by (metis abs_of_pos real_sqrt_abs real_sqrt_less_iff)

lemma checkCollision_iff:
  "0 < r1 + r2 \<Longrightarrow>
   checkCollision p q r1 r2 = ((x p - x q)\<^sup>2 + (y p - y q)\<^sup>2 < (r1 + r2)\<^sup>2)"
  by (simp add: checkCollision_def Let_def sqrt_less_iff power2_eq_square)



lemma spec_physics_noKeys_axis:
  assumes "\<bar>vx\<bar> * 0.95 \<le> 8"
  shows "spec_physics noKeys (carAt pid px py vx 0) =
     (carAt pid px py vx 0)\<lparr>velocity := \<lparr>x = 0.95 * vx, y = 0\<rparr>,
                             position := \<lparr>x = px + 0.95 * vx, y = py\<rparr>\<rparr>"
  using assms
  by (simp add: spec_physics_def spec_integrate_def spec_clamp_def spec_friction_def spec_turn_def
      spec_brake_def spec_forward_def noKeys_def carAt_def createCar_def scale_def Let_def
      MAX_SPEED_def abs_mult)




subsection \<open>Projectiles\<close>

lemma findIndex_None: "findIndex P xs = None \<longleftrightarrow> (\<forall>a \<in> set xs. \<not> P a)"
  by (induction xs) (auto split: option.splits)

lemma findIndex_Some:
  "findIndex P xs = Some i \<Longrightarrow> i < length xs \<and> P (xs ! i) \<and> (\<forall>j < i. \<not> P (xs ! j))"
proof (induction xs arbitrary: i)
  case Nil
  then show ?case by simp
next
  case (Cons a as)
  show ?case
  proof (cases "P a")
    case True
    with Cons.prems show ?thesis by simp
  next
    case False
    with Cons.prems obtain k where k: "findIndex P as = Some k" "i = Suc k"
      by (auto split: option.splits)
    from Cons.IH [OF k(1)] False k(2) show ?thesis
      by (auto simp: nth_Cons split: nat.splits)
  qed
qed

lemma handleBottleCarCollision_active:
  assumes "active b" "\<not> isEliminated c"
  shows "handleBottleCarCollision b c =
           (if qualifies b c then (True, b\<lparr>active := False\<rparr>, (struck b c)\<lparr>isEliminated := False\<rparr>)
            else (False, b, c))"
  using assms
  by (auto simp: handleBottleCarCollision_def qualifies_def struck_def checkCollision_def Let_def
        power2_eq_square mult.commute)

lemma qualifies_eliminated: "isEliminated c \<Longrightarrow> \<not> qualifies b c"
  by (simp add: qualifies_def)

lemma hitLoop_inactive: "\<not> active b \<Longrightarrow> hitLoop b cs = (b, cs)"
  by (induction cs) (simp_all add: handleBottleCarCollision_def)

lemma hitLoop_active:
  "active b \<Longrightarrow>
   hitLoop b cs = (case findIndex (qualifies b) cs of
                     None \<Rightarrow> (b, cs)
                   | Some i \<Rightarrow> (b\<lparr>active := False\<rparr>, cs[i := struck b (cs ! i)]))"
proof (induction cs)
  case Nil
  then show ?case by simp
next
  case (Cons c cs)
  show ?case
  proof (cases "isEliminated c")
    case True
    then show ?thesis using Cons by (simp add: qualifies_eliminated split: option.splits)
  next
    case False
    show ?thesis
    proof (cases "qualifies b c")
      case True
      have "(if health (struck b c) \<le> 0 then (struck b c)\<lparr>isEliminated := True\<rparr>
             else (struck b c)\<lparr>isEliminated := False\<rparr>) = struck b c"
        by (simp add: struck_def Let_def)
      then show ?thesis
        using True False Cons.prems
        by (simp add: handleBottleCarCollision_active struck_def Let_def)
    next
      case q: False
      then show ?thesis
        using False Cons by (simp add: handleBottleCarCollision_active split: option.splits)
    qed
  qed
qed

lemma updateBottlePhysics_active:
  "active (updateBottlePhysics b) = (active b \<and> inTrack (bottle_position (updateBottlePhysics b)))"
  by (auto simp: updateBottlePhysics_def inTrack_def Let_def TRACK_WIDTH_def TRACK_HEIGHT_def)

lemma updateBottles_active: "list_all active (fst (updateBottles bs cs))"
  by (induction bs cs rule: updateBottles.induct) (auto split: prod.splits)

lemma updateBottlePhysics_moved:
  "updateBottlePhysics b =
     (if inTrack (bottle_position (moved b)) then moved b else (moved b)\<lparr>active := False\<rparr>)"
  by (auto simp: updateBottlePhysics_def moved_def inTrack_def Let_def TRACK_WIDTH_def
        TRACK_HEIGHT_def)

lemma active_moved [simp]: "active (moved b) = active b"
  by (simp add: moved_def)

lemma updateBottles_inactive: "\<not> active b \<Longrightarrow> updateBottles (b # bs) cs = updateBottles bs cs"
  by simp

lemma updateBottles_offTrack:
  "active b \<Longrightarrow> \<not> inTrack (bottle_position (moved b)) \<Longrightarrow>
   updateBottles (b # bs) cs = updateBottles bs cs"
  by (simp add: updateBottlePhysics_moved hitLoop_inactive case_prod_beta)

lemma updateBottles_miss:
  "active b \<Longrightarrow> inTrack (bottle_position (moved b)) \<Longrightarrow>
   findIndex (qualifies (moved b)) cs = None \<Longrightarrow>
   updateBottles (b # bs) cs = (moved b # fst (updateBottles bs cs), snd (updateBottles bs cs))"
  by (simp add: updateBottlePhysics_moved hitLoop_active case_prod_beta)

lemma updateBottles_hit:
  "active b \<Longrightarrow> inTrack (bottle_position (moved b)) \<Longrightarrow>
   findIndex (qualifies (moved b)) cs = Some i \<Longrightarrow>
   updateBottles (b # bs) cs = updateBottles bs (cs[i := struck (moved b) (cs ! i)])"
  by (simp add: updateBottlePhysics_moved hitLoop_active case_prod_beta)

subsection \<open>What a tick preserves on every car\<close>

lemma struck_fields [simp]:
  "playerId (struck b c) = playerId c" "maxHealth (struck b c) = maxHealth c"
  "health (struck b c) = health c - damage b"
  "isEliminated (struck b c) = (health c - damage b \<le> 0)"
  "car_ref (struck b c) = car_ref c" "position (struck b c) = position c"
  by (simp_all add: struck_def Let_def)

lemma hitLoop_length [simp]: "length (snd (hitLoop b cs)) = length cs"
  by (cases "active b") (simp_all add: hitLoop_active hitLoop_inactive split: option.splits)

lemma hitLoop_pres:
  assumes "list_all P cs" and "\<And>c. P c \<Longrightarrow> \<not> isEliminated c \<Longrightarrow> P (struck b c)"
  shows "list_all P (snd (hitLoop b cs))"
proof (cases "active b")
  case False
  then show ?thesis using assms(1) by (simp add: hitLoop_inactive)
next
  case True
  show ?thesis
  proof (cases "findIndex (qualifies b) cs")
    case None
    then show ?thesis using True assms(1) by (simp add: hitLoop_active)
  next
    case (Some i)
    from findIndex_Some [OF Some] have i: "i < length cs" "qualifies b (cs ! i)" by auto
    then have "P (cs ! i)" "\<not> isEliminated (cs ! i)"
      using assms(1) by (auto simp: list_all_length qualifies_def)
    then have "P (struck b (cs ! i))" by (rule assms(2))
    then show ?thesis
      using True Some assms(1) i(1)
      by (auto simp: hitLoop_active list_all_length nth_list_update)
  qed
qed

lemma hitLoop_bottle:
  "fst (hitLoop b cs) = b \<or> fst (hitLoop b cs) = b\<lparr>active := False\<rparr>"
  by (cases "active b") (auto simp: hitLoop_active hitLoop_inactive split: option.splits)

lemma updateBottlePhysics_fields [simp]:
  "damage (updateBottlePhysics b) = damage b"
  "bottle_playerId (updateBottlePhysics b) = bottle_playerId b"
  by (simp_all add: updateBottlePhysics_def Let_def)

lemma updateBottles_pres:
  assumes "list_all P cs"
    and "\<And>b c. b \<in> set bs \<Longrightarrow> P c \<Longrightarrow> \<not> isEliminated c \<Longrightarrow> P (struck (updateBottlePhysics b) c)"
  shows "list_all P (snd (updateBottles bs cs))"
  using assms
proof (induction bs arbitrary: cs)
  case Nil
  then show ?case by simp
next
  case (Cons b bs)
  show ?case
  proof (cases "active b")
    case False
    then show ?thesis using Cons by simp
  next
    case True
    have 1: "list_all P (snd (hitLoop (updateBottlePhysics b) cs))"
      using Cons.prems by (intro hitLoop_pres) auto
    have "list_all P (snd (updateBottles bs (snd (hitLoop (updateBottlePhysics b) cs))))"
      using 1 Cons.prems(2) by (intro Cons.IH) auto
    then show ?thesis using True by (simp add: case_prod_beta)
  qed
qed

lemma updateBottles_length [simp]: "length (snd (updateBottles bs cs)) = length cs"
proof (induction bs arbitrary: cs)
  case Nil
  then show ?case by simp
next
  case (Cons b bs)
  have "length (snd (updateBottles bs (snd (hitLoop (updateBottlePhysics b) cs)))) = length cs"
    by (simp add: Cons.IH)
  then show ?case using Cons.IH [of cs] by (simp add: case_prod_beta)
qed

lemma updateBottles_damage:
  "list_all (\<lambda>b. damage b = d) bs \<Longrightarrow> list_all (\<lambda>b. damage b = d) (fst (updateBottles bs cs))"
proof (induction bs arbitrary: cs)
  case Nil
  then show ?case by simp
next
  case (Cons b bs)
  have "damage (fst (hitLoop (updateBottlePhysics b) cs)) = damage b"
    using hitLoop_bottle [of "updateBottlePhysics b" cs] by auto
  then show ?case using Cons by (simp add: case_prod_beta)
qed

lemma applyPowerUp_fields [simp]:
  "playerId (fst (applyPowerUp pu c)) = playerId c"
  "maxHealth (fst (applyPowerUp pu c)) = maxHealth c"
  "isEliminated (fst (applyPowerUp pu c)) = isEliminated c"
  by (simp_all add: applyPowerUp_def split: powerUpType.splits)

lemma collectLoop_pres:
  assumes "list_all P cs"
    and "\<And>c. P c \<Longrightarrow> \<not> isEliminated c \<Longrightarrow> P (fst (applyPowerUp (pu\<lparr>collected := True\<rparr>) c))"
  shows "list_all P (fst (snd (collectLoop pu cs)))"
  using assms(1)
proof (induction cs)
  case Nil
  then show ?case by simp
next
  case (Cons c cs)
  then show ?case
    using assms(2) [of c]
    by (simp add: handlePowerUpCollection_def Let_def case_prod_beta)
qed

lemma collectLoop_collected:
  "collected pu \<Longrightarrow> collectLoop pu cs = (pu, cs, [])"
  by (induction cs) (simp_all add: handlePowerUpCollection_def)

lemma updatePowerUps_pres:
  assumes "list_all P cs"
    and "\<And>pu c. P c \<Longrightarrow> \<not> isEliminated c \<Longrightarrow> P (fst (applyPowerUp pu c))"
  shows "list_all P (fst (snd (updatePowerUps pus cs)))"
  using assms(1)
proof (induction pus arbitrary: cs)
  case Nil
  then show ?case by simp
next
  case (Cons pu pus)
  show ?case
  proof (cases "collected pu")
    case True
    then show ?thesis using Cons by (simp add: case_prod_beta)
  next
    case False
    have 1: "list_all P (fst (snd (collectLoop pu cs)))"
      using Cons.prems assms(2) by (intro collectLoop_pres) auto
    from Cons.IH [OF 1] show ?thesis using False by (simp add: case_prod_beta)
  qed
qed

lemma lapStep_fields [simp]:
  "playerId (snd (lapStep gs c)) = playerId c" "health (snd (lapStep gs c)) = health c"
  "maxHealth (snd (lapStep gs c)) = maxHealth c" "isEliminated (snd (lapStep gs c)) = isEliminated c"
  by (simp_all add: lapStep_def Let_def)

lemma trackLaps_pres:
  assumes "list_all P cs" and "\<And>g c. P c \<Longrightarrow> P (snd (lapStep g c))"
  shows "list_all P (snd (trackLaps gs cs))"
  using assms(1)
proof (induction cs arbitrary: gs)
  case Nil
  then show ?case by simp
next
  case (Cons c cs)
  then show ?case using assms(2) [of c gs] by (simp add: case_prod_beta)
qed

lemma lapStep_gs:
  "fst (lapStep gs c) = gs \<or> fst (lapStep gs c) = gs\<lparr>gameEnded := True, winner := Some (playerId c)\<rparr>"
  by (simp add: lapStep_def Let_def)

lemma trackLaps_gs: "\<exists>e w. fst (trackLaps gs cs) = gs\<lparr>gameEnded := e, winner := w\<rparr>"
proof (induction cs arbitrary: gs)
  case Nil
  have "gs = gs\<lparr>gameEnded := gameEnded gs, winner := winner gs\<rparr>" by simp
  then show ?case by (metis fst_conv trackLaps.simps(1))
next
  case (Cons c cs)
  obtain e w where 1: "fst (trackLaps (fst (lapStep gs c)) cs) = (fst (lapStep gs c))\<lparr>gameEnded := e, winner := w\<rparr>"
    using Cons.IH by blast
  have 2: "fst (trackLaps gs (c # cs)) = fst (trackLaps (fst (lapStep gs c)) cs)"
    by (simp add: case_prod_beta)
  from lapStep_gs [of gs c] show ?case
  proof
    assume "fst (lapStep gs c) = gs"
    with 1 2 show ?thesis by metis
  next
    assume a: "fst (lapStep gs c) = gs\<lparr>gameEnded := True, winner := Some (playerId c)\<rparr>"
    note 2
    also note 1
    also have "(fst (lapStep gs c))\<lparr>gameEnded := e, winner := w\<rparr> = gs\<lparr>gameEnded := e, winner := w\<rparr>"
      by (simp add: a)
    finally show ?thesis by blast
  qed
qed

lemma trackLaps_frame [simp]:
  "gs_bottles (fst (trackLaps gs cs)) = gs_bottles gs"
  "gs_powerUps (fst (trackLaps gs cs)) = gs_powerUps gs"
  "gs_players (fst (trackLaps gs cs)) = gs_players gs"
  "gameStarted (fst (trackLaps gs cs)) = gameStarted gs"
  "raceTime (fst (trackLaps gs cs)) = raceTime gs"
  "maxLaps (fst (trackLaps gs cs)) = maxLaps gs"
  "gs_id (fst (trackLaps gs cs)) = gs_id gs"
  using trackLaps_gs [of gs cs] by auto

lemma checkActivePlayers_frame [simp]:
  "gs_bottles (checkActivePlayers gs) = gs_bottles gs"
  "gs_powerUps (checkActivePlayers gs) = gs_powerUps gs"
  "gs_players (checkActivePlayers gs) = gs_players gs"
  "gameStarted (checkActivePlayers gs) = gameStarted gs"
  "raceTime (checkActivePlayers gs) = raceTime gs"
  by (simp_all add: checkActivePlayers_def Let_def)

lemma respawnPowerUps_frame [simp]:
  "gs_bottles (respawnPowerUps uu rnd gs) = gs_bottles gs"
  "gs_players (respawnPowerUps uu rnd gs) = gs_players gs"
  "gameStarted (respawnPowerUps uu rnd gs) = gameStarted gs"
  "gameEnded (respawnPowerUps uu rnd gs) = gameEnded gs"
  "winner (respawnPowerUps uu rnd gs) = winner gs"
  "raceTime (respawnPowerUps uu rnd gs) = raceTime gs"
  by (simp_all add: respawnPowerUps_def Let_def)

lemma tickGameState_players:
  "gs_players (fst (tickGameState uu rnd gs)) =
     snd (trackLaps (gs\<lparr>raceTime := raceTime gs + 1,
                        gs_bottles := fst (updateBottles (gs_bottles gs) (gs_players gs)),
                        gs_powerUps := fst (updatePowerUps (gs_powerUps gs)
                                          (snd (updateBottles (gs_bottles gs) (gs_players gs))))\<rparr>)
            (fst (snd (updatePowerUps (gs_powerUps gs)
                         (snd (updateBottles (gs_bottles gs) (gs_players gs)))))))"
  by (simp add: tickGameState_def Let_def case_prod_beta)

lemma tickGameState_bottles:
  "gs_bottles (fst (tickGameState uu rnd gs)) = fst (updateBottles (gs_bottles gs) (gs_players gs))"
  by (simp add: tickGameState_def Let_def case_prod_beta)

lemma tickGameState_started [simp]:
  "gameStarted (fst (tickGameState uu rnd gs)) = gameStarted gs"
  by (simp add: tickGameState_def Let_def case_prod_beta)

lemma tickGameState_players_pres:
  assumes "list_all P (gs_players gs)"
    and "\<And>b c. b \<in> set (gs_bottles gs) \<Longrightarrow> P c \<Longrightarrow> \<not> isEliminated c \<Longrightarrow>
           P (struck (updateBottlePhysics b) c)"
    and "\<And>pu c. P c \<Longrightarrow> \<not> isEliminated c \<Longrightarrow> P (fst (applyPowerUp pu c))"
    and "\<And>g c. P c \<Longrightarrow> P (snd (lapStep g c))"
  shows "list_all P (gs_players (fst (tickGameState uu rnd gs)))"
  unfolding tickGameState_players
  by (intro trackLaps_pres updatePowerUps_pres updateBottles_pres assms)

lemma car_health_ok_struck:
  "car_health_ok c \<Longrightarrow> \<not> isEliminated c \<Longrightarrow> damage b = 20 \<Longrightarrow> car_health_ok (struck b c)"
  by (simp add: car_health_ok_def)

lemma car_health_ok_applyPowerUp:
  "car_health_ok c \<Longrightarrow> \<not> isEliminated c \<Longrightarrow> car_health_ok (fst (applyPowerUp pu c))"
  by (auto simp: car_health_ok_def applyPowerUp_def split: powerUpType.splits)

lemma car_health_ok_lapStep: "car_health_ok c \<Longrightarrow> car_health_ok (snd (lapStep g c))"
  by (simp add: car_health_ok_def)

lemma gs_health_ok_tick:
  assumes "gs_health_ok gs"
  shows "gs_health_ok (fst (tickGameState uu rnd gs))"
proof -
  have b: "list_all (\<lambda>b. damage b = 20) (gs_bottles gs)" and c: "list_all car_health_ok (gs_players gs)"
    using assms by (simp_all add: gs_health_ok_def)
  have "list_all car_health_ok (gs_players (fst (tickGameState uu rnd gs)))"
  proof (rule tickGameState_players_pres [OF c])
    fix b' c' assume "b' \<in> set (gs_bottles gs)" "car_health_ok c'" "\<not> isEliminated c'"
    then show "car_health_ok (struck (updateBottlePhysics b') c')"
      using b by (intro car_health_ok_struck) (auto simp: list_all_iff)
  qed (simp_all add: car_health_ok_applyPowerUp car_health_ok_lapStep)
  moreover have "list_all (\<lambda>b. damage b = 20) (gs_bottles (fst (tickGameState uu rnd gs)))"
    by (simp add: tickGameState_bottles updateBottles_damage b)
  ultimately show ?thesis by (simp add: gs_health_ok_def)
qed

subsection \<open>The health invariant\<close>

lemma list_all_update:
  "list_all Q al \<Longrightarrow> Q (k, v) \<Longrightarrow> list_all Q (AList.update k v al)"
  by (induction al) auto

lemma list_all_delete: "list_all Q al \<Longrightarrow> list_all Q (AList.delete k al)"
  by (induction al) auto

lemma list_all_map_of: "list_all Q al \<Longrightarrow> map_of al k = Some v \<Longrightarrow> Q (k, v)"
  by (auto simp: list_all_iff dest: map_of_SomeD)

lemma find_SomeD: "find P xs = Some a \<Longrightarrow> a \<in> set xs \<and> P a"
  by (induction xs) (auto split: if_splits)

lemma list_all_updateFirst:
  "list_all P xs \<Longrightarrow> (\<And>a. a \<in> set xs \<Longrightarrow> Q a \<Longrightarrow> P (f a)) \<Longrightarrow> list_all P (updateFirst Q f xs)"
  by (induction xs) auto

lemma updateCarPhysics_frame [simp]:
  "playerId (updateCarPhysics car input) = playerId car"
  "health (updateCarPhysics car input) = health car"
  "maxHealth (updateCarPhysics car input) = maxHealth car"
  "isEliminated (updateCarPhysics car input) = isEliminated car"
  "bottles (updateCarPhysics car input) = bottles car"
  "car_ref (updateCarPhysics car input) = car_ref car"
  by (simp_all add: updateCarPhysics_eq keepInBounds_eq spec_physics_def spec_integrate_def
        spec_clamp_def spec_friction_def spec_turn_def spec_brake_def spec_forward_def Let_def)

lemma stopGameLoop_rooms [simp]: "rooms (stopGameLoop roomId s) = rooms s"
  by (simp add: stopGameLoop_def split: option.splits)

lemma startGameLoop_rooms [simp]: "rooms (startGameLoop roomId s) = rooms s"
  by (simp add: startGameLoop_def Let_def)

lemma health_inv_createRoom: "health_inv s \<Longrightarrow> health_inv (createRoom sid roomName pname roomId s)"
  by (simp add: health_inv_def createRoom_def Let_def list_all_update gs_health_ok_def
        createInitialGameState_def)

lemma health_inv_joinRoom:
  assumes "health_inv s" "joinRoom sid roomId pname s = Inr s'"
  shows "health_inv s'"
proof -
  from assms(2) obtain room where r: "map_of (rooms s) roomId = Some room"
    and s': "s' = s\<lparr>rooms := AList.update roomId
                      (room\<lparr>room_players := room_players room @
                                [\<lparr>member_id = sid, member_name = pname\<rparr>]\<rparr>) (rooms s)\<rparr>"
    by (auto simp: joinRoom_def split: option.splits if_splits)
  from list_all_map_of [OF assms(1) [unfolded health_inv_def] r]
  show ?thesis
    using assms(1) by (simp add: s' health_inv_def list_all_update)
qed

lemma car_health_ok_createCar: "car_health_ok (createCar pid pname index uuid r)"
  by (simp add: car_health_ok_def createCar_def)

lemma health_inv_startGame: "health_inv s \<Longrightarrow> health_inv (startGame sid roomId uu rnd s)"
proof -
  assume h: "health_inv s"
  show ?thesis
  proof (cases "map_of (rooms s) roomId")
    case None
    then show ?thesis using h by (simp add: startGame_def)
  next
    case (Some room)
    from list_all_map_of [OF h [unfolded health_inv_def] Some]
    have "list_all (\<lambda>b. damage b = 20) (gs_bottles (room_gameState room))"
      by (simp add: gs_health_ok_def)
    then have new: "gs_health_ok ((room_gameState room)
        \<lparr>gs_players := map (\<lambda>(index, player).
                                 createCar (member_id player) (member_name player) index
                                   (uu index) (nextRef s + index))
                              (enumerate 0 (room_players room)),
         gs_powerUps := generatePowerUps (\<lambda>k. uu (length (room_players room) + k)) rnd,
         gameStarted := True, gameEnded := False, raceTime := 0\<rparr>)"
      by (simp add: gs_health_ok_def list_all_iff car_health_ok_createCar case_prod_beta)
    show ?thesis
      using h Some new
      by (simp add: startGame_def Let_def health_inv_def list_all_update)
  qed
qed

lemma health_inv_playerInput: "health_inv s \<Longrightarrow> health_inv (playerInput sid roomId input bid s)"
proof -
  assume h: "health_inv s"
  show ?thesis
  proof (cases "map_of (rooms s) roomId")
    case None
    then show ?thesis using h by (simp add: playerInput_def)
  next
    case (Some room)
    from list_all_map_of [OF h [unfolded health_inv_def] Some]
    have g: "gs_health_ok (room_gameState room)" by simp
    show ?thesis
    proof (cases "find (\<lambda>p. playerId p = sid) (gs_players (room_gameState room))")
      case None
      then show ?thesis using h Some by (simp add: playerInput_def)
    next
      case c: (Some car)
      from find_SomeD [OF c] g have ok: "car_health_ok car"
        by (auto simp: gs_health_ok_def list_all_iff)
      then have ok2: "car_health_ok (updateCarPhysics car input)"
        "car_health_ok (updateCarPhysics (car\<lparr>bottles := bottles car - 1\<rparr>) input)"
        by (simp_all add: car_health_ok_def)
      show ?thesis
        using h Some c g ok2
        by (simp add: playerInput_def Let_def health_inv_def list_all_update gs_health_ok_def
              list_all_updateFirst createBottle_def)
    qed
  qed
qed

lemma health_inv_disconnect: "health_inv s \<Longrightarrow> health_inv (disconnect sid s)"
proof -
  assume h: "health_inv s"
  show ?thesis
  proof (cases "find (\<lambda>(roomId, room). findIndex (\<lambda>p. member_id p = sid) (room_players room) \<noteq> None)
               (rooms s)")
    case None
    then show ?thesis using h by (simp add: disconnect_def)
  next
    case (Some a)
    obtain roomId room where a: "a = (roomId, room)" by (cases a)
    from find_SomeD [OF Some] h have g: "gs_health_ok (room_gameState room)"
      by (auto simp: a health_inv_def list_all_iff)
    then have g': "gs_health_ok ((room_gameState room)
         \<lparr>gs_players := filter (\<lambda>p. playerId p \<noteq> sid) (gs_players (room_gameState room))\<rparr>)"
      by (simp add: gs_health_ok_def list_all_iff)
    show ?thesis
      using h Some g'
      by (auto simp: disconnect_def a Let_def health_inv_def list_all_update list_all_delete
            split: option.splits)
  qed
qed

lemma health_inv_updateGame: "health_inv s \<Longrightarrow> health_inv (updateGame roomId uu rnd s)"
proof -
  assume h: "health_inv s"
  show ?thesis
  proof (cases "map_of (rooms s) roomId")
    case None
    then show ?thesis using h by (simp add: updateGame_def)
  next
    case (Some room)
    from list_all_map_of [OF h [unfolded health_inv_def] Some]
    have "gs_health_ok (room_gameState room)" by simp
    then have "gs_health_ok (fst (tickGameState uu rnd (room_gameState room)))"
      by (rule gs_health_ok_tick)
    then show ?thesis
      using h Some
      by (simp add: updateGame_def Let_def health_inv_def list_all_update case_prod_beta)
  qed
qed

lemma car_health_ok_maxSpeed [simp]: "car_health_ok (c\<lparr>maxSpeed := m\<rparr>) = car_health_ok c"
  by (simp add: car_health_ok_def)

lemma gs_health_ok_resetMaxSpeed:
  "gs_health_ok (room_gameState (resetMaxSpeed r room)) = gs_health_ok (room_gameState room)"
proof -
  have "list_all car_health_ok (map (\<lambda>c. if car_ref c = r then c\<lparr>maxSpeed := MAX_SPEED\<rparr> else c) cs)
        = list_all car_health_ok cs" for cs
    by (induction cs) simp_all
  then show ?thesis by (simp add: resetMaxSpeed_def gs_health_ok_def)
qed

lemma health_inv_speedTimeout: "health_inv s \<Longrightarrow> health_inv (speedTimeout s)"
  by (cases "timeouts s")
     (simp_all add: speedTimeout_def health_inv_def list_all_iff case_prod_beta
        gs_health_ok_resetMaxSpeed)

lemma health_inv_step: "health_inv s \<Longrightarrow> health_inv (step s e)"
  by (cases e)
     (auto simp: health_inv_createRoom health_inv_joinRoom health_inv_startGame
        health_inv_playerInput health_inv_disconnect health_inv_updateGame
        health_inv_speedTimeout intervalTick_def split: sum.splits option.splits)

lemma health_inv_run: "health_inv s \<Longrightarrow> health_inv (run s evs)"
  unfolding run_def by (induction evs arbitrary: s) (simp_all add: health_inv_step)

lemma health_inv_initial: "health_inv initialState"
  by (simp add: health_inv_def initialState_def)

subsection \<open>Evaluating concrete runs\<close>

lemma upt8: "[0..<8] = [0,1,2,3,4,5,6,7]"
  by (simp add: upt_rec)

lemma generatePowerUps_const:
  "generatePowerUps (\<lambda>k. u) (\<lambda>k. 1 / 2) =
     map (\<lambda>t. \<lparr>pu_id = u, pu_type = t, pu_position = \<lparr>x = 400, y = 300\<rparr>, collected = False\<rparr>)
       [Speed, Shield, Health, Bottles, Speed, Shield, Health, Bottles]"
  by (simp add: generatePowerUps_def generatePowerUpPositions_def powerUpTypes_def upt8 Let_def
      TRACK_WIDTH_def TRACK_HEIGHT_def)

lemmas handler_defs = createRoom_def joinRoom_def startGame_def
  startGameLoop_def stopGameLoop_def createInitialGameState_def createCar_def disconnect_def
  splice1_def intervalTick_def updateGame_def tickGameState_def respawnPowerUps_def
  checkActivePlayers_def lapStep_def playerInput_def speedTimeout_def resetMaxSpeed_def
  handlePowerUpCollection_def applyPowerUp_def handleBottleCarCollision_def
  updateBottlePhysics_def createBottle_def
  enumerate_eq_zip startPositions_def colors_def Let_def uu0_def rnd0_def
  generatePowerUps_const checkCollision_iff sessionOf_def carOf_def noKeys_def
  MAX_SPEED_def ACCELERATION_def BOTTLE_SPEED_def TRACK_WIDTH_def TRACK_HEIGHT_def

lemmas physics_eval = updateCarPhysics_eq keepInBounds_eq reflectAxis_def spec_physics_def
  spec_integrate_def spec_clamp_def spec_friction_def spec_turn_def spec_brake_def
  spec_forward_def scale_def


lemma run_append: "run s (evs @ evs') = run (run s evs) evs'"
  by (simp add: run_def)

lemma run_snoc: "run s (evs @ [e]) = step (run s evs) e"
  by (simp add: run_def)

lemma run_raceWonByAnn:
  "run initialState raceWonByAnn =
     \<lparr>rooms = [(''r'', roomAfterWin)], gameLoops = [], intervals = [], timeouts = [],
      nextHandle = 1, nextRef = 2\<rparr>"
  by (simp add: raceWonByAnn_def roomAfterWin_def run_def initialState_def handler_defs)

lemma run_annOutOfBottles:
  "run initialState annOutOfBottles =
     \<lparr>rooms = [(''r'', roomOutOfBottles)], gameLoops = [(''r'', 0)], intervals = [(0, ''r'')],
      timeouts = [], nextHandle = 1, nextRef = 2\<rparr>"
  by (simp add: annOutOfBottles_def roomOutOfBottles_def run_def initialState_def handler_defs
        physics_eval)

lemmas combat_eval = hitOnce_def healOnce_def handleBottleCarCollision_def
  handlePowerUpCollection_def applyPowerUp_def checkCollision_iff atan2_def carAt_def
  bottleAt_def createCar_def Let_def

lemma sessionOf_update:
  "sessionOf roomId (s\<lparr>rooms := AList.update roomId' room (rooms s)\<rparr>) =
     (if roomId = roomId' then Some (room_gameState room) else sessionOf roomId s)"
  by (simp add: sessionOf_def update_conv')

subsection \<open>The room registry\<close>

lemma findIndex_neq_None: "(findIndex P xs \<noteq> None) = (\<exists>a \<in> set xs. P a)"
  using findIndex_None [of P xs] by auto

lemma findIndex_member:
  "(findIndex (\<lambda>p. member_id p = sid) ms \<noteq> None) = (sid \<in> set (map member_id ms))"
  using findIndex_None [of "\<lambda>p. member_id p = sid" ms] by auto

lemma listsSocket_eq:
  "(\<lambda>(roomId, room). findIndex (\<lambda>p. member_id p = sid) (room_players room) \<noteq> None)
     = (\<lambda>(roomId, room). sid \<in> set (map member_id (room_players room)))"
  by (simp only: findIndex_member)

lemma splice1_findIndex_filter:
  assumes "findIndex (\<lambda>p. f p = a) xs = Some i" and "distinct (map f xs)"
  shows "splice1 i xs = filter (\<lambda>p. f p \<noteq> a) xs"
  using assms
proof (induction xs arbitrary: i)
  case Nil
  then show ?case by simp
next
  case (Cons b bs)
  show ?case
  proof (cases "f b = a")
    case True
    then have i: "i = 0" using Cons.prems(1) by simp
    have "f b \<notin> f ` set bs" using Cons.prems(2) by simp
    then have "\<forall>p \<in> set bs. f p \<noteq> a" using True by blast
    then have "filter (\<lambda>p. f p \<noteq> a) bs = bs" by (simp add: filter_id_conv)
    then show ?thesis using True i by (simp add: splice1_def)
  next
    case False
    then obtain k where k: "findIndex (\<lambda>p. f p = a) bs = Some k" "i = Suc k"
      using Cons.prems(1) by (auto split: option.splits)
    from Cons.IH [OF k(1)] Cons.prems(2) have "splice1 k bs = filter (\<lambda>p. f p \<noteq> a) bs" by simp
    then show ?thesis using False k(2) by (simp add: splice1_def)
  qed
qed

lemma disconnect_none:
  "find (\<lambda>(roomId, room). sid \<in> set (map member_id (room_players room))) (rooms s) = None \<Longrightarrow>
   disconnect sid s = s"
proof -
  note e = listsSocket_eq [of sid]
  assume "find (\<lambda>(roomId, room). sid \<in> set (map member_id (room_players room))) (rooms s) = None"
  then show ?thesis by (simp only: disconnect_def e) simp
qed

lemma disconnect_some:
  assumes f: "find (\<lambda>(roomId, room). sid \<in> set (map member_id (room_players room))) (rooms s)
                = Some (roomId, room)"
    and d: "distinct (map member_id (room_players room))"
  shows "disconnect sid s =
           (if room_players (leaveRoom sid room) = []
            then (stopGameLoop roomId s)\<lparr>rooms := AList.delete roomId (rooms s)\<rparr>
            else s\<lparr>rooms := AList.update roomId (leaveRoom sid room) (rooms s)\<rparr>)"
proof -
  note e = listsSocket_eq [of sid]
  from find_SomeD [OF f] have "sid \<in> set (map member_id (room_players room))" by simp
  then obtain i where i: "findIndex (\<lambda>p. member_id p = sid) (room_players room) = Some i"
    using findIndex_neq_None [of "\<lambda>p. member_id p = sid" "room_players room"] by auto
  have sp: "splice1 i (room_players room) = filter (\<lambda>p. member_id p \<noteq> sid) (room_players room)"
    by (rule splice1_findIndex_filter [OF i d])
  show ?thesis
    using i
    by (simp only: disconnect_def e f) (simp add: sp leaveRoom_def Let_def hd_conv_nth)
qed

lemma room_ok_createRoom:
  "room_ok \<lparr>room_id = roomId, room_name = roomName,
            room_players = [\<lparr>member_id = sid, member_name = pname\<rparr>],
            maxPlayers = 6, host = sid, room_gameState = createInitialGameState roomId\<rparr>"
  by (simp add: room_ok_def createInitialGameState_def)

lemma registry_inv_createRoom:
  "registry_inv s \<Longrightarrow> registry_inv (createRoom sid roomName pname roomId s)"
  by (simp add: registry_inv_def createRoom_def Let_def distinct_update list_all_update
        room_ok_createRoom)

lemma room_ok_join:
  assumes "room_ok room" and "find (\<lambda>p. member_id p = sid) (room_players room) = None"
  shows "room_ok (room\<lparr>room_players := room_players room @ [\<lparr>member_id = sid, member_name = pname\<rparr>]\<rparr>)"
proof -
  from assms(2) have "sid \<notin> set (map member_id (room_players room))"
    by (auto simp: find_None_iff)
  then show ?thesis
    using assms(1) by (auto simp: room_ok_def list_all_iff)
qed

lemma registry_inv_joinRoom:
  assumes "registry_inv s" "joinRoom sid roomId pname s = Inr s'"
  shows "registry_inv s'"
proof -
  from assms(2) obtain room where r: "map_of (rooms s) roomId = Some room"
    and n: "find (\<lambda>p. member_id p = sid) (room_players room) = None"
    and s': "s' = s\<lparr>rooms := AList.update roomId
                      (room\<lparr>room_players := room_players room @
                                [\<lparr>member_id = sid, member_name = pname\<rparr>]\<rparr>) (rooms s)\<rparr>"
    by (auto simp: joinRoom_def split: option.splits if_splits)
  from assms(1) have "list_all (\<lambda>(roomId, room). room_ok room) (rooms s)"
    by (simp add: registry_inv_def)
  from list_all_map_of [OF this r] have "room_ok room" by simp
  from room_ok_join [OF this n] assms(1) show ?thesis
    by (simp add: s' registry_inv_def distinct_update list_all_update)
qed

lemma playerId_createCar [simp]: "playerId (createCar pid pname index uuid r) = pid"
  by (simp add: createCar_def)

lemma room_ok_start:
  assumes "room_ok room"
  shows "room_ok (room\<lparr>room_gameState := (room_gameState room)
           \<lparr>gs_players := map (\<lambda>(index, player).
                                 createCar (member_id player) (member_name player) index
                                   (uu index) (k + index))
                              (enumerate 0 (room_players room)),
            gs_powerUps := pus, gameStarted := True, gameEnded := False, raceTime := 0\<rparr>\<rparr>)"
  using assms
  by (auto simp: room_ok_def list_all_iff in_set_enumerate_eq)

lemma registry_inv_startGame:
  assumes "registry_inv s"
  shows "registry_inv (startGame sid roomId uu rnd s)"
proof (cases "map_of (rooms s) roomId")
  case None
  then show ?thesis using assms by (simp add: startGame_def)
next
  case (Some room)
  from assms have "list_all (\<lambda>(roomId, room). room_ok room) (rooms s)"
    by (simp add: registry_inv_def)
  from list_all_map_of [OF this Some] have "room_ok room" by simp
  from room_ok_start [OF this] assms Some show ?thesis
    by (simp add: startGame_def Let_def registry_inv_def distinct_update list_all_update)
qed

lemma room_ok_input:
  assumes "room_ok room" and "find (\<lambda>p. playerId p = sid) (gs_players (room_gameState room)) = Some car"
    and "playerId car' = playerId car"
  shows "room_ok (room\<lparr>room_gameState := (room_gameState room)
           \<lparr>gs_bottles := bs,
            gs_players := updateFirst (\<lambda>p. playerId p = sid) (\<lambda>c. car')
                            (gs_players (room_gameState room))\<rparr>\<rparr>)"
proof -
  from find_SomeD [OF assms(2)] assms(1)
  have "playerId car \<in> set (map member_id (room_players room))"
    by (auto simp: room_ok_def list_all_iff)
  then have "list_all (\<lambda>c. playerId c \<in> set (map member_id (room_players room)))
      (updateFirst (\<lambda>p. playerId p = sid) (\<lambda>c. car') (gs_players (room_gameState room)))"
    using assms(1,3) by (intro list_all_updateFirst) (simp_all add: room_ok_def)
  then show ?thesis using assms(1) by (simp add: room_ok_def)
qed

lemma registry_inv_playerInput:
  assumes "registry_inv s"
  shows "registry_inv (playerInput sid roomId input bid s)"
proof (cases "map_of (rooms s) roomId")
  case None
  then show ?thesis using assms by (simp add: playerInput_def)
next
  case (Some room)
  from assms have "list_all (\<lambda>(roomId, room). room_ok room) (rooms s)"
    by (simp add: registry_inv_def)
  from list_all_map_of [OF this Some] have ok: "room_ok room" by simp
  show ?thesis
  proof (cases "find (\<lambda>p. playerId p = sid) (gs_players (room_gameState room))")
    case None
    then show ?thesis using assms Some by (simp add: playerInput_def)
  next
    case c: (Some car)
    have "room_ok (room\<lparr>room_gameState := (room_gameState room)
           \<lparr>gs_bottles := bs,
            gs_players := updateFirst (\<lambda>p. playerId p = sid) (\<lambda>c. updateCarPhysics car1 input)
                            (gs_players (room_gameState room))\<rparr>\<rparr>)"
      if "playerId car1 = playerId car" for bs car1
      using that by (intro room_ok_input [OF ok c]) simp
    then show ?thesis
      using assms Some c
      by (simp add: playerInput_def Let_def registry_inv_def distinct_update list_all_update)
  qed
qed

lemma room_ok_leaveRoom:
  assumes "room_ok room" and "room_players (leaveRoom sid room) \<noteq> []"
  shows "room_ok (leaveRoom sid room)"
proof -
  let ?ps = "filter (\<lambda>p. member_id p \<noteq> sid) (room_players room)"
  from assms(2) have ne: "?ps \<noteq> []" by (simp add: leaveRoom_def Let_def split: if_splits)
  have d: "distinct (map member_id ?ps)"
    using assms(1) by (simp add: room_ok_def distinct_map_filter)
  have cars: "list_all (\<lambda>c. playerId c \<in> set (map member_id ?ps))
                (filter (\<lambda>p. playerId p \<noteq> sid) (gs_players (room_gameState room)))"
    using assms(1) by (auto simp: room_ok_def list_all_iff)
  have h: "host room \<noteq> sid \<Longrightarrow> host room = member_id (hd ?ps)"
  proof -
    assume a: "host room \<noteq> sid"
    obtain p ps where ps: "room_players room = p # ps"
      using assms(1) by (cases "room_players room") (auto simp: room_ok_def)
    with assms(1) a show ?thesis by (simp add: room_ok_def)
  qed
  show ?thesis
    using assms(1) ne d cars h
    by (simp add: room_ok_def leaveRoom_def Let_def)
qed

lemma registry_inv_disconnect:
  assumes "registry_inv s"
  shows "registry_inv (disconnect sid s)"
proof (cases "find (\<lambda>(roomId, room). sid \<in> set (map member_id (room_players room))) (rooms s)")
  case None
  then show ?thesis using assms by (simp add: disconnect_none)
next
  case (Some a)
  obtain roomId room where a: "a = (roomId, room)" by (cases a)
  from find_SomeD [OF Some] assms have ok: "room_ok room"
    by (auto simp: a registry_inv_def list_all_iff)
  then have d: "distinct (map member_id (room_players room))" by (simp add: room_ok_def)
  show ?thesis
  proof (cases "room_players (leaveRoom sid room) = []")
    case True
    then show ?thesis
      using assms
      by (simp add: disconnect_some [OF Some [unfolded a] d] registry_inv_def distinct_delete
            list_all_delete)
  next
    case False
    from room_ok_leaveRoom [OF ok False] False assms show ?thesis
      by (simp add: disconnect_some [OF Some [unfolded a] d] registry_inv_def distinct_update
            list_all_update)
  qed
qed

lemma room_ok_tick:
  assumes "room_ok room"
  shows "room_ok (room\<lparr>room_gameState := fst (tickGameState uu rnd (room_gameState room))\<rparr>)"
proof -
  have "list_all (\<lambda>c. playerId c \<in> set (map member_id (room_players room)))
          (gs_players (fst (tickGameState uu rnd (room_gameState room))))"
    using assms by (intro tickGameState_players_pres) (simp_all add: room_ok_def)
  then show ?thesis using assms by (simp add: room_ok_def)
qed

lemma registry_inv_updateGame:
  assumes "registry_inv s"
  shows "registry_inv (updateGame roomId uu rnd s)"
proof (cases "map_of (rooms s) roomId")
  case None
  then show ?thesis using assms by (simp add: updateGame_def)
next
  case (Some room)
  from assms have "list_all (\<lambda>(roomId, room). room_ok room) (rooms s)"
    by (simp add: registry_inv_def)
  from list_all_map_of [OF this Some] have "room_ok room" by simp
  from room_ok_tick [OF this] assms Some show ?thesis
    by (simp add: updateGame_def Let_def registry_inv_def distinct_update list_all_update
          case_prod_beta)
qed

lemma list_all_playerId_reset:
  "list_all (\<lambda>c. playerId c \<in> M)
     (map (\<lambda>c. if car_ref c = r then c\<lparr>maxSpeed := m\<rparr> else c) cs)
   = list_all (\<lambda>c. playerId c \<in> M) cs"
  by (induction cs) simp_all

lemma room_ok_resetMaxSpeed: "room_ok (resetMaxSpeed r room) = room_ok room"
  by (simp add: resetMaxSpeed_def room_ok_def list_all_playerId_reset del: set_map)

lemma registry_inv_speedTimeout: "registry_inv s \<Longrightarrow> registry_inv (speedTimeout s)"
proof (cases "timeouts s")
  case Nil
  assume "registry_inv s"
  then show ?thesis using Nil by (simp add: speedTimeout_def)
next
  case (Cons r rs)
  assume a: "registry_inv s"
  have k: "fst \<circ> (\<lambda>(roomId, room). (roomId, resetMaxSpeed r room)) = fst"
    by (simp add: fun_eq_iff)
  show ?thesis
    using a Cons
    by (simp add: speedTimeout_def registry_inv_def k list_all_iff case_prod_beta
          room_ok_resetMaxSpeed)
qed

lemma registry_inv_step: "registry_inv s \<Longrightarrow> registry_inv (step s e)"
  by (cases e)
     (auto simp: registry_inv_createRoom registry_inv_joinRoom registry_inv_startGame
        registry_inv_playerInput registry_inv_disconnect registry_inv_updateGame
        registry_inv_speedTimeout intervalTick_def split: sum.splits option.splits)

lemma registry_inv_run: "registry_inv s \<Longrightarrow> registry_inv (run s evs)"
  unfolding run_def by (induction evs arbitrary: s) (simp_all add: registry_inv_step)

lemma registry_inv_initial: "registry_inv initialState"
  by (simp add: registry_inv_def initialState_def)

subsection \<open>Sessions along a run\<close>

lemma evolves_refl [simp]: "evolves gs gs"
  by (simp add: evolves_def)

lemma evolves_trans: "evolves a b \<Longrightarrow> evolves b c \<Longrightarrow> evolves a c"
  unfolding evolves_def by (meson order_trans)

lemma sessionOf_rooms_delete:
  "sessionOf rid (s\<lparr>rooms := AList.delete roomId (rooms s)\<rparr>) =
     (if rid = roomId then None else sessionOf rid s)"
  by (simp add: sessionOf_def delete_conv')

lemma sessionOf_stopGameLoop [simp]: "sessionOf rid (stopGameLoop roomId s) = sessionOf rid s"
  by (simp add: sessionOf_def)

lemma sessionOf_startGameLoop [simp]: "sessionOf rid (startGameLoop roomId s) = sessionOf rid s"
  by (simp add: sessionOf_def)

lemma sessionOf_Some_room:
  "map_of (rooms s) rid = Some room \<Longrightarrow> sessionOf rid s = Some (room_gameState room)"
  by (simp add: sessionOf_def)

lemma sessionOf_createRoom:
  "sessionOf rid (createRoom sid roomName pname roomId s) =
     (if rid = roomId then Some (createInitialGameState roomId) else sessionOf rid s)"
  by (simp add: createRoom_def Let_def sessionOf_update)

lemma sessionOf_joinRoom:
  "joinRoom sid roomId pname s = Inr s' \<Longrightarrow> sessionOf rid s' = sessionOf rid s"
  by (auto simp: joinRoom_def sessionOf_def update_conv' split: option.splits if_splits)

lemma sessionOf_startGame_other:
  "roomId \<noteq> rid \<Longrightarrow> sessionOf rid (startGame sid roomId uu rnd s) = sessionOf rid s"
  by (simp add: startGame_def Let_def sessionOf_def update_conv' split: option.splits)

lemma set_updateFirst_playerId:
  "find Q cs = Some car \<Longrightarrow> playerId car' = playerId car \<Longrightarrow>
   set (map playerId (updateFirst Q (\<lambda>c. car') cs)) \<subseteq> set (map playerId cs)"
  by (induction cs) (auto split: if_splits)

lemma evolves_playerInput:
  "case sessionOf rid s of
     None \<Rightarrow> sessionOf rid (playerInput sid roomId input bid s) = None
   | Some gs \<Rightarrow> (case sessionOf rid (playerInput sid roomId input bid s) of
                   None \<Rightarrow> True | Some gs' \<Rightarrow> evolves gs gs')"
proof (cases "map_of (rooms s) roomId")
  case None
  then show ?thesis by (simp add: playerInput_def split: option.splits)
next
  case (Some room)
  show ?thesis
  proof (cases "find (\<lambda>p. playerId p = sid) (gs_players (room_gameState room))")
    case None
    then show ?thesis using Some by (simp add: playerInput_def split: option.splits)
  next
    case c: (Some car)
    have "set (map playerId (updateFirst (\<lambda>p. playerId p = sid) (\<lambda>c. updateCarPhysics car1 input)
                 (gs_players (room_gameState room)))) \<subseteq> set (map playerId (gs_players (room_gameState room)))"
      if "playerId car1 = playerId car" for car1
      using that by (intro set_updateFirst_playerId [OF c]) simp
    then show ?thesis
      using Some c sessionOf_Some_room [OF Some]
      by (auto simp: playerInput_def Let_def sessionOf_update evolves_def simp del: set_map
            split: option.splits)
  qed
qed

lemma evolves_leaveRoom: "evolves (room_gameState room) (room_gameState (leaveRoom sid room))"
  by (auto simp: leaveRoom_def Let_def evolves_def)

lemma evolves_disconnect:
  assumes "registry_inv s"
  shows "case sessionOf rid s of
     None \<Rightarrow> sessionOf rid (disconnect sid s) = None
   | Some gs \<Rightarrow> (case sessionOf rid (disconnect sid s) of
                   None \<Rightarrow> True | Some gs' \<Rightarrow> evolves gs gs')"
proof (cases "find (\<lambda>(roomId, room). sid \<in> set (map member_id (room_players room))) (rooms s)")
  case None
  then show ?thesis by (simp add: disconnect_none split: option.splits)
next
  case (Some a)
  obtain roomId room where a: "a = (roomId, room)" by (cases a)
  from find_SomeD [OF Some] have mem: "(roomId, room) \<in> set (rooms s)" by (simp add: a)
  with assms have ok: "room_ok room" by (auto simp: registry_inv_def list_all_iff)
  then have d: "distinct (map member_id (room_players room))" by (simp add: room_ok_def)
  from assms mem have m: "map_of (rooms s) roomId = Some room" by (simp add: registry_inv_def)
  show ?thesis
    using evolves_leaveRoom [of room sid] m
    by (auto simp: disconnect_some [OF Some [unfolded a] d] sessionOf_def update_conv'
          delete_conv' split: option.splits)
qed

lemma gameEnded_lapStep: "gameEnded gs \<Longrightarrow> gameEnded (fst (lapStep gs c))"
  by (simp add: lapStep_def Let_def)

lemma gameEnded_trackLaps: "gameEnded gs \<Longrightarrow> gameEnded (fst (trackLaps gs cs))"
  by (induction cs arbitrary: gs) (simp_all add: case_prod_beta gameEnded_lapStep)

lemma gameEnded_checkActivePlayers: "gameEnded gs \<Longrightarrow> gameEnded (checkActivePlayers gs)"
  by (simp add: checkActivePlayers_def Let_def)

lemma gameEnded_tick: "gameEnded gs \<Longrightarrow> gameEnded (fst (tickGameState uu rnd gs))"
  by (simp add: tickGameState_def Let_def case_prod_beta gameEnded_checkActivePlayers
        gameEnded_trackLaps)

lemma evolves_tick: "evolves gs (fst (tickGameState uu rnd gs))"
proof -
  have "list_all (\<lambda>c. playerId c \<in> set (map playerId (gs_players gs)))
          (gs_players (fst (tickGameState uu rnd gs)))"
    by (intro tickGameState_players_pres) (simp_all add: list_all_iff)
  then have "set (map playerId (gs_players (fst (tickGameState uu rnd gs))))
               \<subseteq> set (map playerId (gs_players gs))"
    by (auto simp: list_all_iff)
  then show ?thesis by (simp add: evolves_def gameEnded_tick del: set_map)
qed

lemma evolves_updateGame:
  "case sessionOf rid s of
     None \<Rightarrow> sessionOf rid (updateGame roomId uu rnd s) = None
   | Some gs \<Rightarrow> (case sessionOf rid (updateGame roomId uu rnd s) of
                   None \<Rightarrow> True | Some gs' \<Rightarrow> evolves gs gs')"
proof (cases "map_of (rooms s) roomId")
  case None
  then show ?thesis by (simp add: updateGame_def split: option.splits)
next
  case (Some room)
  show ?thesis
    using Some evolves_tick [of "room_gameState room" uu rnd]
    by (auto simp: updateGame_def Let_def case_prod_beta sessionOf_def update_conv'
          split: option.splits)
qed

lemma playerId_reset_comp:
  "playerId \<circ> (\<lambda>c. if car_ref c = r then c\<lparr>maxSpeed := m\<rparr> else c) = playerId"
  by (simp add: fun_eq_iff)

lemma evolves_resetMaxSpeed: "evolves (room_gameState room) (room_gameState (resetMaxSpeed r room))"
  by (simp add: evolves_def resetMaxSpeed_def playerId_reset_comp del: set_map)

lemma evolves_speedTimeout:
  "case sessionOf rid s of
     None \<Rightarrow> sessionOf rid (speedTimeout s) = None
   | Some gs \<Rightarrow> (case sessionOf rid (speedTimeout s) of
                   None \<Rightarrow> True | Some gs' \<Rightarrow> evolves gs gs')"
proof (cases "timeouts s")
  case Nil
  then show ?thesis by (simp add: speedTimeout_def split: option.splits)
next
  case (Cons r rs)
  have "map_of (map (\<lambda>(roomId, room). (roomId, resetMaxSpeed r room)) (rooms s)) rid
          = map_option (resetMaxSpeed r) (map_of (rooms s) rid)"
    by (induction "rooms s") (auto simp: map_of_map)
  then show ?thesis
    using Cons by (auto simp: speedTimeout_def sessionOf_def evolves_resetMaxSpeed split: option.splits)
qed

lemma evolves_step:
  assumes "registry_inv s" "\<not> startsGame rid e" "\<not> createsRoom rid e"
  shows "case sessionOf rid s of
     None \<Rightarrow> sessionOf rid (step s e) = None
   | Some gs \<Rightarrow> (case sessionOf rid (step s e) of
                   None \<Rightarrow> True | Some gs' \<Rightarrow> evolves gs gs')"
proof (cases e)
  case (CreateRoom sid roomName pname roomId)
  then have "sessionOf rid (step s e) = sessionOf rid s"
    using assms(3) by (simp add: sessionOf_createRoom)
  then show ?thesis by (simp only:) (simp split: option.splits)
next
  case (JoinRoom sid roomId pname)
  then have "sessionOf rid (step s e) = sessionOf rid s"
    by (simp add: sessionOf_joinRoom split: sum.splits)
  then show ?thesis by (simp only:) (simp split: option.splits)
next
  case (StartGame sid roomId uu rnd)
  then have "sessionOf rid (step s e) = sessionOf rid s"
    using assms(2) by (simp add: sessionOf_startGame_other)
  then show ?thesis by (simp only:) (simp split: option.splits)
next
  case (PlayerInput sid roomId input bid)
  show ?thesis unfolding PlayerInput step.simps by (rule evolves_playerInput)
next
  case (Disconnect sid)
  show ?thesis unfolding Disconnect step.simps by (rule evolves_disconnect [OF assms(1)])
next
  case (Tick h uu rnd)
  show ?thesis
  proof (cases "map_of (intervals s) h")
    case None
    then have st: "step s e = s" using Tick by (simp add: intervalTick_def)
    show ?thesis unfolding st by (simp split: option.splits)
  next
    case (Some roomId)
    then have st: "step s e = updateGame roomId uu rnd s" using Tick by (simp add: intervalTick_def)
    show ?thesis unfolding st by (rule evolves_updateGame)
  qed
next
  case SpeedTimeout
  show ?thesis unfolding SpeedTimeout step.simps by (rule evolves_speedTimeout)
qed


lemma evolves_run:
  assumes "registry_inv s" "list_all (\<lambda>e. \<not> startsGame rid e \<and> \<not> createsRoom rid e) evs"
  shows "case sessionOf rid s of
     None \<Rightarrow> sessionOf rid (run s evs) = None
   | Some gs \<Rightarrow> (case sessionOf rid (run s evs) of
                   None \<Rightarrow> True | Some gs' \<Rightarrow> evolves gs gs')"
  using assms
proof (induction evs arbitrary: s)
  case Nil
  then show ?case by (simp add: run_def split: option.splits)
next
  case (Cons e evs)
  have r: "run s (e # evs) = run (step s e) evs" by (simp add: run_def)
  from Cons.prems have i: "registry_inv (step s e)" by (simp add: registry_inv_step)
  from Cons.prems have 1: "case sessionOf rid s of
     None \<Rightarrow> sessionOf rid (step s e) = None
   | Some gs \<Rightarrow> (case sessionOf rid (step s e) of
                   None \<Rightarrow> True | Some gs' \<Rightarrow> evolves gs gs')"
    by (intro evolves_step) simp_all
  from Cons.prems have 2: "case sessionOf rid (step s e) of
     None \<Rightarrow> sessionOf rid (run (step s e) evs) = None
   | Some gs \<Rightarrow> (case sessionOf rid (run (step s e) evs) of
                   None \<Rightarrow> True | Some gs' \<Rightarrow> evolves gs gs')"
    by (intro Cons.IH [OF i]) simp
  from 1 2 show ?case
    unfolding r by (auto split: option.splits intro: evolves_trans)
qed

lemma carOf_None_run:
  assumes "registry_inv s" "list_all (\<lambda>e. \<not> startsGame rid e \<and> \<not> createsRoom rid e) evs"
    and "carOf sid rid s = None"
  shows "carOf sid rid (run s evs) = None"
proof -
  have f: "find (\<lambda>p. playerId p = sid) cs = None \<longleftrightarrow> sid \<notin> set (map playerId cs)" for cs :: "car list"
    by (auto simp: find_None_iff)
  from evolves_run [OF assms(1,2)] assms(3) show ?thesis
    by (auto simp: carOf_def f evolves_def simp del: set_map split: option.splits)
qed

lemma playerInput_no_car: "carOf sid rid s = None \<Longrightarrow> playerInput sid rid input bid s = s"
  by (auto simp: playerInput_def sessionOf_def carOf_def split: option.splits)




lemma carOf_no_member:
  assumes "room_ok room" "map_of (rooms s) rid = Some room"
    "sid \<notin> set (map member_id (room_players room))"
  shows "carOf sid rid s = None"
proof -
  from assms(1) have "\<forall>c \<in> set (gs_players (room_gameState room)).
      playerId c \<in> set (map member_id (room_players room))"
    by (simp add: room_ok_def list_all_iff)
  with assms(3) have "find (\<lambda>p. playerId p = sid) (gs_players (room_gameState room)) = None"
    by (auto simp: find_None_iff)
  with assms(2) show ?thesis by (simp add: carOf_def sessionOf_def)
qed

lemma find_member_None:
  "sid \<notin> set (map member_id ms) \<Longrightarrow> find (\<lambda>p. member_id p = sid) ms = None"
  by (auto simp: find_None_iff)

section \<open>Physics claims\<close>

text \<open>
  C8. One physics update of a Vehicle performs, in this order, the six steps of the
  specification: the forward impulse along the heading (of magnitude 0.5), the brake
  factor 0.8, the turn by 0.08 (speed / 8) per pressed turn key only when the speed
  before friction exceeds 0.5, the friction factor 0.95, the rescaling to \<open>maxSpeed\<close>, the
  integration of the position; boundary handling follows them.
\<close>

theorem updateCarPhysics_is_spec_steps:
  "updateCarPhysics car input =
     keepInBounds (spec_integrate (spec_clamp (spec_friction
       (spec_turn input (spec_brake input (spec_forward input car)))))) \<and>
   speedOf \<lparr>x = 0.5 * cos (rotation car), y = 0.5 * sin (rotation car)\<rparr> = 0.5"
proof -
  have "(0.5 * cos (rotation car))\<^sup>2 + (0.5 * sin (rotation car))\<^sup>2
          = (1 / 4) * (sin (rotation car))\<^sup>2 + (1 / 4) * (cos (rotation car))\<^sup>2"
    by (simp add: power_mult_distrib power2_eq_square)
  also have "\<dots> = (1 / 2)\<^sup>2"
    using sin_cos_squared_add [of "rotation car"] by (simp add: power2_eq_square)
  finally have "sqrt ((0.5 * cos (rotation car))\<^sup>2 + (0.5 * sin (rotation car))\<^sup>2) = \<bar>1 / 2\<bar>"
    by (simp only: real_sqrt_abs)
  then show ?thesis
    using updateCarPhysics_eq [of car input] by (simp add: spec_physics_def speedOf_def)
qed

text \<open>
  A car at rest that presses forward and left: the impulse gives speed exactly 0.5, which
  does not exceed 0.5, so the heading stays; friction leaves 0.475.
\<close>

theorem updateCarPhysics_is_spec_steps_witness:
  "velocity (updateCarPhysics (carAt ''A'' 100 100 0 0) (noKeys\<lparr>up := True, left := True\<rparr>))
     = \<lparr>x = 0.475, y = 0\<rparr> \<and>
   rotation (updateCarPhysics (carAt ''A'' 100 100 0 0) (noKeys\<lparr>up := True, left := True\<rparr>)) = 0 \<and>
   position (updateCarPhysics (carAt ''A'' 100 100 0 0) (noKeys\<lparr>up := True, left := True\<rparr>))
     = \<lparr>x = 100.475, y = 100\<rparr>"
  using updateCarPhysics_is_spec_steps
          [of "carAt ''A'' 100 100 0 0" "noKeys\<lparr>up := True, left := True\<rparr>"]
  by (simp add: keepInBounds_eq reflectAxis_def spec_integrate_def spec_clamp_def
        spec_friction_def spec_turn_def spec_brake_def spec_forward_def noKeys_def carAt_def
        createCar_def scale_def Let_def MAX_SPEED_def)

text \<open>
  C5. After every physics update the position lies within \<open>[20,780] \<times> [20,580]\<close>, and on
  each axis, independently of the other, the result is the integrated coordinate and
  velocity component passed through the reflection: clamped to the margin it crossed, with
  the component replaced by half its absolute value directed inward.
\<close>

theorem updateCarPhysics_position_in_bounds:
  "20 \<le> x (position (updateCarPhysics car input)) \<and>
   x (position (updateCarPhysics car input)) \<le> 780 \<and>
   20 \<le> y (position (updateCarPhysics car input)) \<and>
   y (position (updateCarPhysics car input)) \<le> 580 \<and>
   (x (position (updateCarPhysics car input)), x (velocity (updateCarPhysics car input))) =
     reflectAxis 20 780 (x (position (spec_physics input car)), x (velocity (spec_physics input car))) \<and>
   (y (position (updateCarPhysics car input)), y (velocity (updateCarPhysics car input))) =
     reflectAxis 20 580 (y (position (spec_physics input car)), y (velocity (spec_physics input car)))"
proof -
  have "(x (position (updateCarPhysics car input)), x (velocity (updateCarPhysics car input))) =
     reflectAxis 20 780 (x (position (spec_physics input car)), x (velocity (spec_physics input car)))"
    by (simp add: updateCarPhysics_eq keepInBounds_eq)
  moreover have "(y (position (updateCarPhysics car input)), y (velocity (updateCarPhysics car input))) =
     reflectAxis 20 580 (y (position (spec_physics input car)), y (velocity (spec_physics input car)))"
    by (simp add: updateCarPhysics_eq keepInBounds_eq)
  ultimately show ?thesis
    using position_updateCarPhysics_bounds [of car input] by simp
qed

text \<open>A car one unit from the right margin moving right at speed 8: it ends on the margin, moving left at 3.8.\<close>

theorem updateCarPhysics_position_in_bounds_witness:
  "x (position (updateCarPhysics (carAt ''A'' 779 100 8 0) noKeys)) = 780 \<and>
   x (velocity (updateCarPhysics (carAt ''A'' 779 100 8 0) noKeys)) = - 3.8 \<and>
   y (position (updateCarPhysics (carAt ''A'' 779 100 8 0) noKeys)) = 100 \<and>
   y (velocity (updateCarPhysics (carAt ''A'' 779 100 8 0) noKeys)) = 0"
  using updateCarPhysics_position_in_bounds [of "carAt ''A'' 779 100 8 0" noKeys]
  by (simp add: spec_physics_noKeys_axis reflectAxis_def)




section \<open>Combat claims\<close>

lemma moved_example: "moved (bottleAt ''B'' 90 100 12 0) = bottleAt ''B'' 102 100 12 0"
  by (simp add: moved_def bottleAt_def)

lemma qualifies_example:
  "\<not> qualifies (bottleAt ''B'' 102 100 12 0) (carAt ''B'' 100 100 0 0)"
  "qualifies (bottleAt ''B'' 102 100 12 0) (carAt ''A'' 100 100 0 0)"
  by (simp_all add: qualifies_def bottleAt_def carAt_def createCar_def sqrt_less_iff)

text \<open>
  C6. Within one tick every projectile of the list is treated in order. One that is
  already inactive is dropped untouched. An active one is integrated (position advanced by
  velocity, \<open>moved\<close>); if the new position is off the track \<open>[0,800] \<times> [0,600]\<close> it is
  deactivated and dropped, and no Vehicle is touched. Otherwise it is tested against the
  Vehicles in insertion order: it is deactivated exactly when some Vehicle qualifies (not
  eliminated, not its owner, circles of radius 20 and 5 overlapping), then only the first
  such Vehicle is struck, every other Vehicle is left as it was, and the projectile is
  dropped, the remaining projectiles seeing the struck Vehicle; with no qualifying Vehicle
  it is kept, active, at its new position, and the Vehicles are unchanged. The list after
  the tick is the one so computed, it holds active projectiles only, and the Vehicles of
  the tick go on from the ones so computed.
\<close>

theorem projectile_deactivates_once_single_hit:
  "updateBottlePhysics b =
     (if inTrack (bottle_position (moved b)) then moved b else (moved b)\<lparr>active := False\<rparr>) \<and>
   updateBottles [] cs = ([], cs) \<and>
   (\<not> active b \<longrightarrow>
      \<not> active (fst (hitLoop (updateBottlePhysics b) cs)) \<and>
      updateBottles (b # bs) cs = updateBottles bs cs) \<and>
   (active b \<and> \<not> inTrack (bottle_position (moved b)) \<longrightarrow>
      hitLoop (updateBottlePhysics b) cs = (updateBottlePhysics b, cs) \<and>
      \<not> active (updateBottlePhysics b) \<and>
      updateBottles (b # bs) cs = updateBottles bs cs) \<and>
   (active b \<and> inTrack (bottle_position (moved b)) \<longrightarrow>
      (case findIndex (qualifies (moved b)) cs of
         None \<Rightarrow>
           hitLoop (updateBottlePhysics b) cs = (moved b, cs) \<and> active (moved b) \<and>
           updateBottles (b # bs) cs =
             (moved b # fst (updateBottles bs cs), snd (updateBottles bs cs))
       | Some i \<Rightarrow>
           i < length cs \<and> qualifies (moved b) (cs ! i) \<and>
           (\<forall>j < i. \<not> qualifies (moved b) (cs ! j)) \<and>
           hitLoop (updateBottlePhysics b) cs =
             ((moved b)\<lparr>active := False\<rparr>, cs[i := struck (moved b) (cs ! i)]) \<and>
           updateBottles (b # bs) cs =
             updateBottles bs (cs[i := struck (moved b) (cs ! i)]))) \<and>
   list_all active (fst (updateBottles bs cs)) \<and>
   gs_bottles (fst (tickGameState uu rnd gs)) =
     fst (updateBottles (gs_bottles gs) (gs_players gs)) \<and>
   gs_players (fst (tickGameState uu rnd gs)) =
     snd (trackLaps (gs\<lparr>raceTime := raceTime gs + 1,
                        gs_bottles := fst (updateBottles (gs_bottles gs) (gs_players gs)),
                        gs_powerUps := fst (updatePowerUps (gs_powerUps gs)
                                          (snd (updateBottles (gs_bottles gs) (gs_players gs))))\<rparr>)
            (fst (snd (updatePowerUps (gs_powerUps gs)
                         (snd (updateBottles (gs_bottles gs) (gs_players gs)))))))"
proof -
  let ?b = "updateBottlePhysics b"
  have 0: "?b = (if inTrack (bottle_position (moved b)) then moved b
                 else (moved b)\<lparr>active := False\<rparr>)"
    by (rule updateBottlePhysics_moved)
  have 1: "\<not> active b \<longrightarrow> \<not> active (fst (hitLoop ?b cs)) \<and>
      updateBottles (b # bs) cs = updateBottles bs cs"
    by (simp add: hitLoop_inactive updateBottlePhysics_active)
  have 2: "active b \<and> \<not> inTrack (bottle_position (moved b)) \<longrightarrow>
      hitLoop ?b cs = (?b, cs) \<and> \<not> active ?b \<and>
      updateBottles (b # bs) cs = updateBottles bs cs"
    using updateBottles_offTrack [of b bs cs]
    by (simp add: hitLoop_inactive updateBottlePhysics_moved)
  have 3: "active b \<and> inTrack (bottle_position (moved b)) \<longrightarrow>
      (case findIndex (qualifies (moved b)) cs of
         None \<Rightarrow>
           hitLoop ?b cs = (moved b, cs) \<and> active (moved b) \<and>
           updateBottles (b # bs) cs =
             (moved b # fst (updateBottles bs cs), snd (updateBottles bs cs))
       | Some i \<Rightarrow>
           i < length cs \<and> qualifies (moved b) (cs ! i) \<and>
           (\<forall>j < i. \<not> qualifies (moved b) (cs ! j)) \<and>
           hitLoop ?b cs = ((moved b)\<lparr>active := False\<rparr>, cs[i := struck (moved b) (cs ! i)]) \<and>
           updateBottles (b # bs) cs = updateBottles bs (cs[i := struck (moved b) (cs ! i)]))"
  proof
    assume a: "active b \<and> inTrack (bottle_position (moved b))"
    then have m: "?b = moved b" and act: "active (moved b)"
      by (simp_all add: updateBottlePhysics_moved)
    show "case findIndex (qualifies (moved b)) cs of
         None \<Rightarrow>
           hitLoop ?b cs = (moved b, cs) \<and> active (moved b) \<and>
           updateBottles (b # bs) cs =
             (moved b # fst (updateBottles bs cs), snd (updateBottles bs cs))
       | Some i \<Rightarrow>
           i < length cs \<and> qualifies (moved b) (cs ! i) \<and>
           (\<forall>j < i. \<not> qualifies (moved b) (cs ! j)) \<and>
           hitLoop ?b cs = ((moved b)\<lparr>active := False\<rparr>, cs[i := struck (moved b) (cs ! i)]) \<and>
           updateBottles (b # bs) cs = updateBottles bs (cs[i := struck (moved b) (cs ! i)])"
    proof (cases "findIndex (qualifies (moved b)) cs")
      case None
      then show ?thesis
        using a act updateBottles_miss [of b cs bs] by (simp add: m hitLoop_active)
    next
      case (Some i)
      from findIndex_Some [OF Some] Some a act updateBottles_hit [of b cs i bs]
      show ?thesis by (simp add: m hitLoop_active)
    qed
  qed
  have 4: "gs_bottles (fst (tickGameState uu rnd gs)) =
     fst (updateBottles (gs_bottles gs) (gs_players gs))"
    by (rule tickGameState_bottles)
  note 5 = tickGameState_players [of uu rnd gs]
  have 6: "updateBottles [] cs = ([], cs)" by simp
  from 0 1 2 3 4 5 6 updateBottles_active [of bs cs] show ?thesis by blast
qed

text \<open>
  A projectile of player B passing three Vehicles at the same place, in the order B, A, C:
  its owner is skipped, A is struck, C is not, and the projectile is gone from the list.
\<close>

theorem projectile_deactivates_once_single_hit_witness:
  "active (bottleAt ''B'' 90 100 12 0) \<and>
   bottle_position (updateBottlePhysics (bottleAt ''B'' 90 100 12 0)) = \<lparr>x = 102, y = 100\<rparr> \<and>
   inTrack (bottle_position (moved (bottleAt ''B'' 90 100 12 0))) \<and>
   \<not> active (fst (hitLoop (updateBottlePhysics (bottleAt ''B'' 90 100 12 0))
      [carAt ''B'' 100 100 0 0, carAt ''A'' 100 100 0 0, carAt ''C'' 100 100 0 0])) \<and>
   map health (snd (hitLoop (updateBottlePhysics (bottleAt ''B'' 90 100 12 0))
      [carAt ''B'' 100 100 0 0, carAt ''A'' 100 100 0 0, carAt ''C'' 100 100 0 0])) = [100, 80, 100] \<and>
   fst (updateBottles [bottleAt ''B'' 90 100 12 0]
      [carAt ''B'' 100 100 0 0, carAt ''A'' 100 100 0 0, carAt ''C'' 100 100 0 0]) = [] \<and>
   map health (snd (updateBottles [bottleAt ''B'' 90 100 12 0]
      [carAt ''B'' 100 100 0 0, carAt ''A'' 100 100 0 0, carAt ''C'' 100 100 0 0])) = [100, 80, 100] \<and>
   map isEliminated (snd (updateBottles [bottleAt ''B'' 90 100 12 0]
      [carAt ''B'' 100 100 0 0, carAt ''A'' 100 100 0 0, carAt ''C'' 100 100 0 0]))
     = [False, False, False]"
proof -
  let ?b = "bottleAt ''B'' 90 100 12 0"
  let ?cs = "[carAt ''B'' 100 100 0 0, carAt ''A'' 100 100 0 0, carAt ''C'' 100 100 0 0]"
  let ?cs' = "?cs[1 := struck (moved ?b) (?cs ! 1)]"
  have a: "active ?b"
    by (simp add: bottleAt_def)
  have t: "inTrack (bottle_position (moved ?b))"
    by (simp add: moved_example) (simp add: inTrack_def bottleAt_def)
  have i: "findIndex (qualifies (moved ?b)) ?cs = Some 1"
    by (simp add: moved_example qualifies_example)
  note T = projectile_deactivates_once_single_hit [of ?b ?cs "[]"]
  from a t T [unfolded i option.case if_P [OF t]]
  have p: "updateBottlePhysics ?b = moved ?b"
    and h: "hitLoop (updateBottlePhysics ?b) ?cs = ((moved ?b)\<lparr>active := False\<rparr>, ?cs')"
    and u: "updateBottles [?b] ?cs = updateBottles [] ?cs'"
    by blast+
  have s: "map health ?cs' = [100, 80, 100]" "map isEliminated ?cs' = [False, False, False]"
    by (simp_all add: moved_example)
       (simp_all add: bottleAt_def carAt_def createCar_def struck_def Let_def)
  show ?thesis
    unfolding h u unfolding p
    by (simp add: a t s moved_example del: list_update.simps)
       (simp add: bottleAt_def carAt_def createCar_def inTrack_def)
qed

section \<open>Health\<close>

text \<open>
  C1, as the code has it. In every reachable state every Vehicle of every session has
  \<open>maxHealth\<close> 100 and health at most \<open>maxHealth\<close>; a Vehicle that is not eliminated
  has health above 0; a hit subtracts 20 without clamping, so the health of an eliminated
  Vehicle can be negative, but stays above -20.
\<close>

theorem health_within_bounds:
  "(roomId, room) \<in> set (rooms (run initialState evs)) \<Longrightarrow>
   c \<in> set (gs_players (room_gameState room)) \<Longrightarrow>
   health c \<le> maxHealth c \<and> maxHealth c = 100 \<and> - 20 < health c \<and>
   (\<not> isEliminated c \<longrightarrow> 0 < health c)"
  using health_inv_run [OF health_inv_initial, of evs]
  by (auto simp: health_inv_def gs_health_ok_def car_health_ok_def list_all_iff)

text \<open>Ann's car after the run \<open>raceWonByAnn\<close>: not eliminated, health 100.\<close>

theorem health_within_bounds_witness:
  "(''r'', roomAfterWin) \<in> set (rooms (run initialState raceWonByAnn)) \<and>
   (createCar ''A'' ''Ann'' 0 ''u'' 0)\<lparr>totalTime := 1\<rparr> \<in> set (gs_players (room_gameState roomAfterWin)) \<and>
   \<not> isEliminated ((createCar ''A'' ''Ann'' 0 ''u'' 0)\<lparr>totalTime := 1\<rparr>) \<and>
   0 < health ((createCar ''A'' ''Ann'' 0 ''u'' 0)\<lparr>totalTime := 1\<rparr>) \<and>
   health ((createCar ''A'' ''Ann'' 0 ''u'' 0)\<lparr>totalTime := 1\<rparr>) \<le> 100"
proof -
  have 1: "(''r'', roomAfterWin) \<in> set (rooms (run initialState raceWonByAnn))"
    by (simp add: run_raceWonByAnn)
  have 2: "(createCar ''A'' ''Ann'' 0 ''u'' 0)\<lparr>totalTime := 1\<rparr> \<in> set (gs_players (room_gameState roomAfterWin))"
    by (simp add: roomAfterWin_def)
  have 3: "\<not> isEliminated ((createCar ''A'' ''Ann'' 0 ''u'' 0)\<lparr>totalTime := 1\<rparr>)"
    by (simp add: createCar_def)
  from health_within_bounds [OF 1 2] 1 2 3 show ?thesis by simp
qed

text \<open>
  C1 as stated fails: three hits take a fresh Vehicle from 100 to 40, a health pick-up
  to 70, and four more hits to 50, 30, 10 and -10.
\<close>

theorem health_goes_negative:
  "map health (hitOnce (hitOnce (hitOnce [carAt ''A'' 100 100 0 0]))) = [40] \<and>
   map health (healOnce (hitOnce (hitOnce (hitOnce [carAt ''A'' 100 100 0 0])))) = [70] \<and>
   map health (hitOnce (hitOnce (hitOnce (hitOnce (healOnce (hitOnce (hitOnce (hitOnce
     [carAt ''A'' 100 100 0 0])))))))) = [- 10]"
  by (simp add: combat_eval)

section \<open>Player input\<close>

text \<open>
  C3, as the code has it. \<open>playerInput\<close> leaves the whole state unchanged, and reports
  nothing, when the room is unknown, when the session is not started, when the sender has
  no Vehicle in the session, and when the sender's Vehicle is eliminated. When fire is
  pressed with no ammunition, no projectile is added and the ammunition stays as it is,
  but the physics update of the sender's Vehicle is still applied: the session afterwards
  is the session before with that Vehicle replaced by its physics update.
\<close>

theorem playerInput_ignored:
  "(sessionOf roomId s = None \<longrightarrow> playerInput sid roomId input bid s = s) \<and>
   (\<forall>gs. sessionOf roomId s = Some gs \<and> \<not> gameStarted gs \<longrightarrow>
      playerInput sid roomId input bid s = s) \<and>
   (carOf sid roomId s = None \<longrightarrow> playerInput sid roomId input bid s = s) \<and>
   (\<forall>car. carOf sid roomId s = Some car \<and> isEliminated car \<longrightarrow>
      playerInput sid roomId input bid s = s) \<and>
   (\<forall>gs car. sessionOf roomId s = Some gs \<and> gameStarted gs \<and>
      carOf sid roomId s = Some car \<and> \<not> isEliminated car \<and> space input \<and> bottles car \<le> 0 \<longrightarrow>
      sessionOf roomId (playerInput sid roomId input bid s) =
        Some (gs\<lparr>gs_players := updateFirst (\<lambda>p. playerId p = sid)
                     (\<lambda>c. updateCarPhysics car input) (gs_players gs)\<rparr>) \<and>
      bottles (updateCarPhysics car input) = bottles car)"
  by (auto simp: playerInput_def sessionOf_def carOf_def update_conv' Let_def
        split: option.splits)

text \<open>
  After the run \<open>annOutOfBottles\<close>: an input from a socket without a Vehicle changes
  nothing; Ann, with no bottles left, presses fire, and the projectile list stays as it was.
\<close>

theorem playerInput_ignored_witness:
  "carOf ''Z'' ''r'' (run initialState annOutOfBottles) = None \<and>
   playerInput ''Z'' ''r'' (noKeys\<lparr>up := True\<rparr>) ''b6'' (run initialState annOutOfBottles)
     = run initialState annOutOfBottles \<and>
   map_option bottles (carOf ''A'' ''r'' (run initialState annOutOfBottles)) = Some 0 \<and>
   map_option gs_bottles (sessionOf ''r''
      (playerInput ''A'' ''r'' (noKeys\<lparr>space := True\<rparr>) ''b6'' (run initialState annOutOfBottles)))
     = Some (gs_bottles (room_gameState roomOutOfBottles))"
proof -
  let ?s = "run initialState annOutOfBottles"
  have z: "carOf ''Z'' ''r'' ?s = None"
    by (simp add: run_annOutOfBottles roomOutOfBottles_def carOf_def sessionOf_def createCar_def)
  have g: "sessionOf ''r'' ?s = Some (room_gameState roomOutOfBottles)"
    by (simp add: run_annOutOfBottles sessionOf_def)
  have a: "carOf ''A'' ''r'' ?s = Some ((createCar ''A'' ''Ann'' 0 ''u'' 0)\<lparr>bottles := 0\<rparr>)"
    by (simp add: run_annOutOfBottles roomOutOfBottles_def carOf_def sessionOf_def createCar_def)
  have st: "gameStarted (room_gameState roomOutOfBottles)"
    by (simp add: roomOutOfBottles_def)
  have el: "\<not> isEliminated ((createCar ''A'' ''Ann'' 0 ''u'' 0)\<lparr>bottles := 0\<rparr>)"
    by (simp add: createCar_def)
  from playerInput_ignored [of "''r''" ?s "''Z''" "noKeys\<lparr>up := True\<rparr>" "''b6''"] z
  have 1: "playerInput ''Z'' ''r'' (noKeys\<lparr>up := True\<rparr>) ''b6'' ?s = ?s" by blast
  from playerInput_ignored [of "''r''" ?s "''A''" "noKeys\<lparr>space := True\<rparr>" "''b6''"] g a st el
  have 2: "sessionOf ''r'' (playerInput ''A'' ''r'' (noKeys\<lparr>space := True\<rparr>) ''b6'' ?s) =
        Some ((room_gameState roomOutOfBottles)\<lparr>gs_players := updateFirst (\<lambda>p. playerId p = ''A'')
                     (\<lambda>c. updateCarPhysics ((createCar ''A'' ''Ann'' 0 ''u'' 0)\<lparr>bottles := 0\<rparr>)
                            (noKeys\<lparr>space := True\<rparr>))
                     (gs_players (room_gameState roomOutOfBottles))\<rparr>)"
    by (simp add: noKeys_def)
  show ?thesis using z 1 2 a by simp
qed

text \<open>
  C3 as stated fails twice. After the run \<open>raceWonByAnn\<close> the session is finished, and
  a forward input from Ann still accelerates her car. After the run \<open>annOutOfBottles\<close>
  Ann has no ammunition, and an input with fire and forward pressed still accelerates her car.
\<close>

theorem playerInput_not_ignored:
  "map_option gameEnded (sessionOf ''r'' (run initialState raceWonByAnn)) = Some True \<and>
   map_option velocity (carOf ''A'' ''r'' (run initialState raceWonByAnn)) = Some \<lparr>x = 0, y = 0\<rparr> \<and>
   map_option velocity (carOf ''A'' ''r''
     (playerInput ''A'' ''r'' (noKeys\<lparr>up := True\<rparr>) ''b'' (run initialState raceWonByAnn)))
     = Some \<lparr>x = 0.475, y = 0\<rparr> \<and>
   playerInput ''A'' ''r'' (noKeys\<lparr>up := True\<rparr>) ''b'' (run initialState raceWonByAnn)
     \<noteq> run initialState raceWonByAnn \<and>
   map_option bottles (carOf ''A'' ''r'' (run initialState annOutOfBottles)) = Some 0 \<and>
   map_option velocity (carOf ''A'' ''r'' (run initialState annOutOfBottles)) = Some \<lparr>x = 0, y = 0\<rparr> \<and>
   map_option velocity (carOf ''A'' ''r''
     (playerInput ''A'' ''r'' (noKeys\<lparr>up := True, space := True\<rparr>) ''b6''
        (run initialState annOutOfBottles))) = Some \<lparr>x = 0.475, y = 0\<rparr> \<and>
   playerInput ''A'' ''r'' (noKeys\<lparr>up := True, space := True\<rparr>) ''b6''
     (run initialState annOutOfBottles) \<noteq> run initialState annOutOfBottles"
proof -
  let ?sA = "run initialState raceWonByAnn" and ?sB = "run initialState annOutOfBottles"
  have 1: "map_option gameEnded (sessionOf ''r'' ?sA) = Some True"
    by (simp add: run_raceWonByAnn roomAfterWin_def sessionOf_def)
  have 2: "map_option velocity (carOf ''A'' ''r'' ?sA) = Some \<lparr>x = 0, y = 0\<rparr>"
    by (simp add: run_raceWonByAnn roomAfterWin_def sessionOf_def carOf_def createCar_def)
  have 3: "map_option velocity (carOf ''A'' ''r''
     (playerInput ''A'' ''r'' (noKeys\<lparr>up := True\<rparr>) ''b'' ?sA)) = Some \<lparr>x = 0.475, y = 0\<rparr>"
    by (simp add: run_raceWonByAnn roomAfterWin_def handler_defs physics_eval)
  have 4: "playerInput ''A'' ''r'' (noKeys\<lparr>up := True\<rparr>) ''b'' ?sA \<noteq> ?sA"
    using 2 3 by auto
  have 5: "map_option bottles (carOf ''A'' ''r'' ?sB) = Some 0"
    by (simp add: run_annOutOfBottles roomOutOfBottles_def sessionOf_def carOf_def createCar_def)
  have 6: "map_option velocity (carOf ''A'' ''r'' ?sB) = Some \<lparr>x = 0, y = 0\<rparr>"
    by (simp add: run_annOutOfBottles roomOutOfBottles_def sessionOf_def carOf_def createCar_def)
  have 7: "map_option velocity (carOf ''A'' ''r''
     (playerInput ''A'' ''r'' (noKeys\<lparr>up := True, space := True\<rparr>) ''b6'' ?sB))
       = Some \<lparr>x = 0.475, y = 0\<rparr>"
    by (simp add: run_annOutOfBottles roomOutOfBottles_def handler_defs physics_eval)
  have 8: "playerInput ''A'' ''r'' (noKeys\<lparr>up := True, space := True\<rparr>) ''b6'' ?sB \<noteq> ?sB"
    using 6 7 by auto
  from 1 2 3 4 5 6 7 8 show ?thesis by blast
qed

section \<open>Win evaluation\<close>

text \<open>
  C7 at a run the server can receive. After the run \<open>secondRaceEmptied\<close> the session of
  room r is ended with no Vehicle left in it, and its winner is still Ann, the winner of
  the race before: \<open>startGame\<close> does not clear \<open>winner\<close>, and the last-vehicle-standing
  test assigns it only when exactly one Vehicle is left. Ann is not even a member of the
  room any more.
\<close>

theorem stale_winner_after_restart:
  "map_option (\<lambda>gs. (gameStarted gs, gameEnded gs, winner gs, gs_players gs))
     (sessionOf ''r'' (run initialState secondRaceEmptied)) = Some (True, True, Some ''A'', []) \<and>
   map (\<lambda>(roomId, room). (roomId, map member_id (room_players room)))
     (rooms (run initialState secondRaceEmptied)) = [(''r'', [''D''])]"
  by (simp only: secondRaceEmptied_def run_append run_raceWonByAnn)
     (simp add: roomAfterWin_def run_def handler_defs)

section \<open>Session phases\<close>





section \<open>Late joiners\<close>

text \<open>
  C10. In a state the server can reach, a socket that is not a member of a room with
  fewer than 6 members joins it: the member is appended to the member list, the session
  of the room, started or not, is left as it was, and so holds no Vehicle of the new
  member. Whatever events follow, as long as none is a \<open>startGame\<close> on the room (nor
  issues its identity again), the member has no Vehicle in the session and every
  \<open>playerInput\<close> of the member leaves the whole state unchanged.
\<close>

theorem late_joiner_has_no_car:
  assumes "s = run initialState evs" and "map_of (rooms s) rid = Some room"
    and "length (room_players room) < 6"
    and "sid \<notin> set (map member_id (room_players room))"
    and "list_all (\<lambda>e. \<not> startsGame rid e \<and> \<not> createsRoom rid e) evs'"
  shows "joinRoom sid rid pname s =
           Inr (s\<lparr>rooms := AList.update rid
                  (room\<lparr>room_players := room_players room @
                          [\<lparr>member_id = sid, member_name = pname\<rparr>]\<rparr>) (rooms s)\<rparr>) \<and>
         sessionOf rid (step s (JoinRoom sid rid pname)) = Some (room_gameState room) \<and>
         carOf sid rid (step s (JoinRoom sid rid pname)) = None \<and>
         carOf sid rid (run (step s (JoinRoom sid rid pname)) evs') = None \<and>
         playerInput sid rid input bid (run (step s (JoinRoom sid rid pname)) evs') =
           run (step s (JoinRoom sid rid pname)) evs'"
proof -
  let ?room' = "room\<lparr>room_players := room_players room @ [\<lparr>member_id = sid, member_name = pname\<rparr>]\<rparr>"
  let ?s' = "step s (JoinRoom sid rid pname)"
  have i: "registry_inv s"
    unfolding assms(1) by (rule registry_inv_run [OF registry_inv_initial])
  from assms(2) have "(rid, room) \<in> set (rooms s)" by (rule map_of_SomeD)
  with i have ok: "room_ok room" by (auto simp: registry_inv_def list_all_iff)
  then have m: "maxPlayers room = 6" by (simp add: room_ok_def)
  have j: "joinRoom sid rid pname s = Inr (s\<lparr>rooms := AList.update rid ?room' (rooms s)\<rparr>)"
    using assms(2,3,4) m by (simp add: joinRoom_def find_member_None)
  then have s': "?s' = s\<lparr>rooms := AList.update rid ?room' (rooms s)\<rparr>" by simp
  have g: "sessionOf rid ?s' = Some (room_gameState room)"
    unfolding s' by (simp add: sessionOf_update)
  have c0: "carOf sid rid s = None" by (rule carOf_no_member [OF ok assms(2,4)])
  have c1: "carOf sid rid ?s' = None"
    using c0 assms(2) unfolding carOf_def g by (simp add: sessionOf_def)
  have i': "registry_inv ?s'" by (rule registry_inv_step [OF i])
  have c2: "carOf sid rid (run ?s' evs') = None"
    by (rule carOf_None_run [OF i' assms(5) c1])
  from j g c1 c2 playerInput_no_car [OF c2] show ?thesis by simp
qed

text \<open>
  Cid joins the race of Ann and Bob (the run \<open>annOutOfBottles\<close>) and presses forward and
  fire: nothing changes.
\<close>

theorem late_joiner_has_no_car_witness:
  "map_of (rooms (run initialState annOutOfBottles)) ''r'' = Some roomOutOfBottles \<and>
   gameStarted (room_gameState roomOutOfBottles) \<and>
   length (room_players roomOutOfBottles) < 6 \<and>
   ''C'' \<notin> set (map member_id (room_players roomOutOfBottles)) \<and>
   list_all (\<lambda>e. \<not> startsGame ''r'' e \<and> \<not> createsRoom ''r'' e) lateInput \<and>
   map (\<lambda>(roomId, room). (roomId, map member_id (room_players room)))
     (rooms (step (run initialState annOutOfBottles) (JoinRoom ''C'' ''r'' ''Cid'')))
     = [(''r'', [''A'', ''B'', ''C''])] \<and>
   sessionOf ''r'' (step (run initialState annOutOfBottles) (JoinRoom ''C'' ''r'' ''Cid''))
     = Some (room_gameState roomOutOfBottles) \<and>
   carOf ''C'' ''r'' (run (step (run initialState annOutOfBottles) (JoinRoom ''C'' ''r'' ''Cid''))
     lateInput) = None \<and>
   playerInput ''C'' ''r'' (noKeys\<lparr>up := True\<rparr>) ''b7''
     (run (step (run initialState annOutOfBottles) (JoinRoom ''C'' ''r'' ''Cid'')) lateInput) =
   run (step (run initialState annOutOfBottles) (JoinRoom ''C'' ''r'' ''Cid'')) lateInput"
proof -
  let ?s = "run initialState annOutOfBottles"
  have 1: "map_of (rooms ?s) ''r'' = Some roomOutOfBottles"
    by (simp add: run_annOutOfBottles)
  have 2: "gameStarted (room_gameState roomOutOfBottles)"
    "length (room_players roomOutOfBottles) < 6"
    "''C'' \<notin> set (map member_id (room_players roomOutOfBottles))"
    by (simp_all add: roomOutOfBottles_def)
  have 3: "list_all (\<lambda>e. \<not> startsGame ''r'' e \<and> \<not> createsRoom ''r'' e) lateInput"
    by (simp add: lateInput_def)
  note T = late_joiner_has_no_car [OF refl 1 2(2,3) 3, of "''Cid''" "noKeys\<lparr>up := True\<rparr>" "''b7''"]
  from T have 4: "map (\<lambda>(roomId, room). (roomId, map member_id (room_players room)))
     (rooms (step ?s (JoinRoom ''C'' ''r'' ''Cid''))) = [(''r'', [''A'', ''B'', ''C''])]"
    by (simp add: run_annOutOfBottles) (simp add: roomOutOfBottles_def)
  from 1 2 3 4 T show ?thesis by blast
qed

section \<open>Room registry\<close>

text \<open>
  C9 at a run the server can receive. Ann, the host, sends \<open>startGame\<close> twice: each starts
  a timer for room r, and only the second is registered in \<open>gameLoops\<close>. When Ann leaves,
  Bob, the next member, becomes the host. When Bob, the last member, leaves, the room is
  deleted and the registered timer 1 is cleared, but timer 0 of the same room is still
  running.
\<close>

theorem tick_loop_survives_room_deletion:
  "map (\<lambda>(roomId, room). (roomId, host room, map member_id (room_players room)))
     (rooms (run initialState hostLeaves)) = [(''r'', ''B'', [''B''])] \<and>
   gameLoops (run initialState hostLeaves) = [(''r'', 1)] \<and>
   intervals (run initialState hostLeaves) = [(0, ''r''), (1, ''r'')] \<and>
   rooms (run initialState allLeave) = [] \<and>
   gameLoops (run initialState allLeave) = [] \<and>
   intervals (run initialState allLeave) = [(0, ''r'')]"
  by (simp add: allLeave_def hostLeaves_def run_def initialState_def handler_defs)

end
